theory Spec2Isabelle
  imports Main
begin

section \<open>The document model consumed by the rich-text layer\<close>

text \<open>
  The rich-text package (\<^verbatim>\<open>packages/lexical-rich-text/src/index.js\<close>) defines two block
  nodes, the initialisation of an editor and the command listeners. The node storage,
  the selection and the command registry belong to the \<^verbatim>\<open>lexical\<close> core package; the
  parts of the core that the listeners and node methods call are written down here from
  the specification's data model (section 3) and component contracts (section 4).
\<close>

datatype node_key = RootKey | Key nat

datatype direction = LTR | RTL

datatype heading_tag = H1 | H2 | H3 | H4 | H5

datatype node_type =
    RootNode
  | ParagraphNode
  | HeadingNode heading_tag
  | QuoteNode
  | TextNode
  | OtherNode string

text \<open>
  Modelled from the spec: the abstract Document Node of section 3 (the \<^verbatim>\<open>ElementNode\<close>
  and \<^verbatim>\<open>LexicalNode\<close> classes are imported from \<^verbatim>\<open>lexical\<close>). A node has a parent link,
  an ordered sequence of child keys, an indent level, a text direction (\<open>None\<close> is the
  source's \<^verbatim>\<open>null\<close>), the text that \<^verbatim>\<open>getTextContent()\<close> reports, and the per-block
  capability flag that \<^verbatim>\<open>canInsertTab()\<close> reports (section 9 asks to keep it abstract).
  The indent is a JavaScript number, so it is an \<open>int\<close>: nothing in the listeners
  themselves confines it to the interval from 0 to 10.
\<close>

record lexical_node =
  node_type :: node_type
  parent :: "node_key option"
  children :: "node_key list"
  indent :: int
  direction :: "direction option"
  textContent :: string
  canInsertTab :: bool

datatype point_type = TextPoint | ElementPoint

text \<open>Modelled from the spec: a Point is (nodeKey, offset, kind), section 3.\<close>

record point =
  key :: node_key
  offset :: int
  ptype :: point_type

record range_selection =
  anchor :: point
  focus :: point

text \<open>
  Modelled from the spec: the Selection is a tagged union of Range, NodeSet and None
  (section 3). The source also tests \<^verbatim>\<open>$isGridSelection\<close>, so a grid variant exists; none
  of the listeners modelled below looks inside it.
\<close>

datatype selection =
    RangeSelection range_selection
  | NodeSelection "node_key list"
  | GridSelection
  | NoSelection

type_synonym node_map = "node_key \<rightharpoonup> lexical_node"

record editor_state =
  nodeMap :: node_map
  selection :: selection

text \<open>
  Calls into the selection primitives of the core and into \<^verbatim>\<open>@lexical/clipboard\<close>. Their
  code is outside this package; every function below takes their effect on the editor
  state as a parameter and records each call.
\<close>

type_synonym data_transfer = "(string \<times> string) list"

datatype model_call =
    Selection_deleteCharacter bool
  | Selection_deleteWord bool
  | Selection_deleteLine bool
  | Selection_insertText string
  | Selection_insertLineBreak bool
  | InsertDataTransferForRichText data_transfer

type_synonym external_model = "model_call \<Rightarrow> editor_state \<Rightarrow> editor_state"

text \<open>
  The editor: its current editor state, the source of fresh node keys, the names of the
  registered command listeners in registration order (all of this package's listeners are
  registered at priority 0), the calls made into the external model so far, the tags of the
  update transactions run so far, the DOM's active element and the editor's root element
  (\<open>None\<close> is \<^verbatim>\<open>null\<close>), and the \<^verbatim>\<open>defaultPrevented\<close> flag of the DOM event being
  dispatched.
\<close>

record editor =
  editorState :: editor_state
  keyCounter :: nat
  commandListeners :: "string list"
  modelCalls :: "model_call list"
  updateTags :: "string list"
  activeElement :: "nat option"
  rootElement :: "nat option"
  defaultPrevented :: bool

datatype error = NodeNotFound | NoParent | NotAChild

subsection \<open>Accessors of the core\<close>

text \<open>
  Modelled from the spec: \<^verbatim>\<open>$getSelection()\<close> is the ambient accessor of the active
  selection; its counterpart for the node storage reads and writes the node map of the
  editor's current state.
\<close>

definition getSelection :: "editor \<Rightarrow> selection" where
  "getSelection ed = selection (editorState ed)"

definition getNodeMap :: "editor \<Rightarrow> node_map" where
  "getNodeMap ed = nodeMap (editorState ed)"

definition setNodeMap :: "node_map \<Rightarrow> editor \<Rightarrow> editor" where
  "setNodeMap nm ed = ed\<lparr>editorState := (editorState ed)\<lparr>nodeMap := nm\<rparr>\<rparr>"

text \<open>
  Modelled from the spec: \<^verbatim>\<open>point.getNode()\<close>. A point that references a node which is
  not in the tree is a structural invariant violation, surfaced as a hard error (section 7).
\<close>

definition getNode :: "node_map \<Rightarrow> node_key \<Rightarrow> error + lexical_node" where
  "getNode nm k = (case nm k of None \<Rightarrow> Inl NodeNotFound | Some n \<Rightarrow> Inr n)"

text \<open>
  Modelled from the spec: \<^verbatim>\<open>node.getParentOrThrow()\<close> follows the parent link and throws
  when there is no parent node.
\<close>

definition getParentOrThrow :: "node_map \<Rightarrow> lexical_node \<Rightarrow> error + node_key \<times> lexical_node" where
  "getParentOrThrow nm n =
     (case parent n of
        None \<Rightarrow> Inl NoParent
      | Some p \<Rightarrow> (case nm p of None \<Rightarrow> Inl NoParent | Some q \<Rightarrow> Inr (p, q)))"

text \<open>
  The expression
  \<^verbatim>\<open>anchor.type === 'element' ? anchor.getNode() : anchor.getNode().getParentOrThrow()\<close>
  that the indent, outdent and backspace listeners evaluate. It yields the block's key
  together with the node read under that key.
\<close>

definition parentBlock :: "node_map \<Rightarrow> point \<Rightarrow> error + node_key \<times> lexical_node" where
  "parentBlock nm a =
     (if ptype a = ElementPoint
      then (case getNode nm (key a) of Inl e \<Rightarrow> Inl e | Inr n \<Rightarrow> Inr (key a, n))
      else (case getNode nm (key a) of Inl e \<Rightarrow> Inl e | Inr n \<Rightarrow> getParentOrThrow nm n))"

text \<open>Modelled from the spec: a Range is collapsed when its two points coincide.\<close>

definition isCollapsed :: "range_selection \<Rightarrow> bool" where
  "isCollapsed sel = (anchor sel = focus sel)"

text \<open>
  A write to one node: the node under the key is replaced by its updated version, and a
  key that is not in the map stays out of it.
\<close>

definition updateNode :: "node_key \<Rightarrow> (lexical_node \<Rightarrow> lexical_node) \<Rightarrow> node_map \<Rightarrow> node_map" where
  "updateNode k f nm = nm(k := map_option f (nm k))"

text \<open>
  Modelled from the spec: \<^verbatim>\<open>element.setIndent(n)\<close> stores the indent level of the node
  under the given key; every other node and the selection stay as they are.
\<close>

definition setIndent :: "node_key \<Rightarrow> int \<Rightarrow> editor \<Rightarrow> editor" where
  "setIndent k v ed = setNodeMap (updateNode k (\<lambda>n. n\<lparr>indent := v\<rparr>) (getNodeMap ed)) ed"

text \<open>
  JavaScript string indexing \<^verbatim>\<open>s[i]\<close>: \<^verbatim>\<open>undefined\<close> (here \<open>None\<close>) when the index is
  negative or past the end.
\<close>

definition charAt :: "string \<Rightarrow> int \<Rightarrow> char option" where
  "charAt s i = (if 0 \<le> i \<and> i < int (length s) then Some (s ! nat i) else None)"

text \<open>The tab character, \<^verbatim>\<open>'\t'\<close> in the source.\<close>

definition TAB :: char where
  "TAB = CHR 0x09"

text \<open>A call of an external primitive: its effect on the editor state, and the record of it.\<close>

definition callModel :: "external_model \<Rightarrow> model_call \<Rightarrow> editor \<Rightarrow> editor" where
  "callModel M c ed =
     ed\<lparr>editorState := M c (editorState ed), modelCalls := modelCalls ed @ [c]\<rparr>"

text \<open>\<^verbatim>\<open>event.preventDefault()\<close> on the event that is being dispatched.\<close>

definition preventDefault :: "editor \<Rightarrow> editor" where
  "preventDefault ed = ed\<lparr>defaultPrevented := True\<rparr>"

section \<open>Commands and their listeners\<close>

record keyboard_event =
  shiftKey :: bool

text \<open>The payload of \<^verbatim>\<open>insertText\<close>: a string, or an input event with its two fields.\<close>

datatype text_payload =
    TextString string
  | InputEvent "data_transfer option" "string option"

text \<open>
  The commands whose listeners are modelled, each with its payload. The package registers
  listeners for further commands (see \<open>richTextCommands\<close> below); their bodies play no
  part in the properties proved here.
\<close>

datatype command =
    DeleteCharacter bool
  | DeleteWord bool
  | DeleteLine bool
  | InsertText text_payload
  | InsertLineBreak bool
  | IndentContent
  | OutdentContent
  | KeyBackspace keyboard_event
  | KeyTab keyboard_event

fun commandName :: "command \<Rightarrow> string" where
  "commandName (DeleteCharacter _) = ''deleteCharacter''"
| "commandName (DeleteWord _) = ''deleteWord''"
| "commandName (DeleteLine _) = ''deleteLine''"
| "commandName (InsertText _) = ''insertText''"
| "commandName (InsertLineBreak _) = ''insertLineBreak''"
| "commandName IndentContent = ''indentContent''"
| "commandName OutdentContent = ''outdentContent''"
| "commandName (KeyBackspace _) = ''keyBackspace''"
| "commandName (KeyTab _) = ''keyTab''"

text \<open>
  The depth of re-dispatch below a command: the key listeners re-dispatch indent, outdent
  and delete commands, which re-dispatch text commands, which re-dispatch nothing.
\<close>

fun redispatchDepth :: "command \<Rightarrow> nat" where
  "redispatchDepth (KeyBackspace _) = 2"
| "redispatchDepth (KeyTab _) = 2"
| "redispatchDepth IndentContent = 1"
| "redispatchDepth OutdentContent = 1"
| "redispatchDepth _ = 0"

type_synonym result = "error + bool \<times> editor"

text \<open>
  \<open>execCommand\<close> and \<open>triggerCommandListeners\<close> are modelled from the spec: the command
  registry of section 4.1. The listeners registered under the command's name are tried in
  registration order (they all have priority 0) and the registry stops at the first one
  that returns \<^verbatim>\<open>true\<close>; a name with no listener yields \<^verbatim>\<open>false\<close>. Every listener in
  the registry of this model is one that \<^verbatim>\<open>registerRichText\<close> registered. A re-dispatch
  from inside a listener runs fully nested. An exception thrown in a listener leaves the
  dispatch (\<open>Inl\<close>).

  \<open>listener\<close> has one equation for each modelled closure that \<^verbatim>\<open>registerRichText\<close> passes
  to \<^verbatim>\<open>editor.registerCommandListener\<close>, in the order of the source.
\<close>

function execCommand :: "external_model \<Rightarrow> editor \<Rightarrow> command \<Rightarrow> result"
  and triggerCommandListeners :: "external_model \<Rightarrow> string list \<Rightarrow> editor \<Rightarrow> command \<Rightarrow> result"
  and listener :: "external_model \<Rightarrow> editor \<Rightarrow> command \<Rightarrow> result"
where
  "execCommand M ed c =
     triggerCommandListeners M (filter (\<lambda>n. n = commandName c) (commandListeners ed)) ed c"
| "triggerCommandListeners M [] ed c = Inr (False, ed)"
| "triggerCommandListeners M (n # ns) ed c =
     (case listener M ed c of
        Inl e \<Rightarrow> Inl e
      | Inr (handled, ed') \<Rightarrow>
          if handled then Inr (True, ed') else triggerCommandListeners M ns ed' c)"
| "listener M ed (DeleteCharacter isBackward) =
     (case getSelection ed of
        RangeSelection sel \<Rightarrow> Inr (True, callModel M (Selection_deleteCharacter isBackward) ed)
      | _ \<Rightarrow> Inr (False, ed))"
| "listener M ed (DeleteWord isBackward) =
     (case getSelection ed of
        RangeSelection sel \<Rightarrow> Inr (True, callModel M (Selection_deleteWord isBackward) ed)
      | _ \<Rightarrow> Inr (False, ed))"
| "listener M ed (DeleteLine isBackward) =
     (case getSelection ed of
        RangeSelection sel \<Rightarrow> Inr (True, callModel M (Selection_deleteLine isBackward) ed)
      | _ \<Rightarrow> Inr (False, ed))"
| "listener M ed (InsertText eventOrText) =
     (case getSelection ed of
        RangeSelection sel \<Rightarrow>
          (case eventOrText of
             TextString s \<Rightarrow> Inr (True, callModel M (Selection_insertText s) ed)
           | InputEvent dataTransfer data \<Rightarrow>
               (case dataTransfer of
                  Some dt \<Rightarrow> Inr (True, callModel M (InsertDataTransferForRichText dt) ed)
                | None \<Rightarrow>
                    (case data of
                       None \<Rightarrow> Inr (True, ed)
                     | Some s \<Rightarrow>
                         if s \<noteq> [] then Inr (True, callModel M (Selection_insertText s) ed)
                         else Inr (True, ed))))
      | _ \<Rightarrow> Inr (False, ed))"
| "listener M ed (InsertLineBreak selectStart) =
     (case getSelection ed of
        RangeSelection sel \<Rightarrow> Inr (True, callModel M (Selection_insertLineBreak selectStart) ed)
      | _ \<Rightarrow> Inr (False, ed))"
| "listener M ed IndentContent =
     (case getSelection ed of
        RangeSelection sel \<Rightarrow>
          (case parentBlock (getNodeMap ed) (anchor sel) of
             Inl e \<Rightarrow> Inl e
           | Inr (k, blk) \<Rightarrow>
               if canInsertTab blk
               then (case execCommand M ed (InsertText (TextString [TAB])) of
                       Inl e \<Rightarrow> Inl e
                     | Inr (_, ed') \<Rightarrow> Inr (True, ed'))
               else if indent blk \<noteq> 10
                    then Inr (True, setIndent k (indent blk + 1) ed)
                    else Inr (True, ed))
      | _ \<Rightarrow> Inr (False, ed))"
| "listener M ed OutdentContent =
     (case getSelection ed of
        RangeSelection sel \<Rightarrow>
          (case getNode (getNodeMap ed) (key (anchor sel)) of
             Inl e \<Rightarrow> Inl e
           | Inr anchorNode \<Rightarrow>
               (case parentBlock (getNodeMap ed) (anchor sel) of
                  Inl e \<Rightarrow> Inl e
                | Inr (k, blk) \<Rightarrow>
                    if canInsertTab blk
                    then (if charAt (textContent anchorNode) (offset (anchor sel) - 1) = Some TAB
                          then (case execCommand M ed (DeleteCharacter True) of
                                  Inl e \<Rightarrow> Inl e
                                | Inr (_, ed') \<Rightarrow> Inr (True, ed'))
                          else Inr (True, ed))
                    else if indent blk \<noteq> 0
                         then Inr (True, setIndent k (indent blk - 1) ed)
                         else Inr (True, ed)))
      | _ \<Rightarrow> Inr (False, ed))"
| "listener M ed (KeyBackspace event) =
     (case getSelection ed of
        RangeSelection sel \<Rightarrow>
          if isCollapsed sel \<and> offset (anchor sel) = 0
          then (case parentBlock (getNodeMap ed) (anchor sel) of
                  Inl e \<Rightarrow> Inl e
                | Inr (k, element) \<Rightarrow>
                    if indent element > 0
                    then execCommand M (preventDefault ed) OutdentContent
                    else execCommand M (preventDefault ed) (DeleteCharacter True))
          else execCommand M (preventDefault ed) (DeleteCharacter True)
      | _ \<Rightarrow> Inr (False, ed))"
| "listener M ed (KeyTab event) =
     (case getSelection ed of
        RangeSelection sel \<Rightarrow>
          execCommand M (preventDefault ed)
            (if shiftKey event then OutdentContent else IndentContent)
      | _ \<Rightarrow> Inr (False, ed))"
  by pat_completeness auto

termination
  by (relation "measures
        [case_sum (\<lambda>(M, ed, c). redispatchDepth c)
           (case_sum (\<lambda>(M, ns, ed, c). redispatchDepth c) (\<lambda>(M, ed, c). redispatchDepth c)),
         case_sum (\<lambda>(M, ed, c). length (commandListeners ed) + 2)
           (case_sum (\<lambda>(M, ns, ed, c). length ns + 1) (\<lambda>(M, ed, c). 0))]")
     (auto simp: less_Suc_eq_le)


section \<open>Registration and initialisation\<close>

text \<open>
  The names under which \<^verbatim>\<open>registerRichText\<close> registers a listener, in the order of the
  source.
\<close>

definition richTextCommands :: "string list" where
  "richTextCommands =
     [''click'', ''deleteCharacter'', ''deleteWord'', ''deleteLine'', ''insertText'',
      ''removeText'', ''formatText'', ''formatElement'', ''insertLineBreak'',
      ''insertParagraph'', ''indentContent'', ''outdentContent'', ''keyArrowLeft'',
      ''keyArrowRight'', ''keyBackspace'', ''keyDelete'', ''keyEnter'', ''keyTab'',
      ''keyEscape'', ''drop'', ''dragstart'', ''copy'', ''cut'', ''paste'']"

text \<open>
  Modelled from the spec: \<^verbatim>\<open>editor.registerCommandListener(name, listener, 0)\<close> adds the
  listener to the registry, after those registered before it (section 4.1).
\<close>

definition registerCommandListener :: "string \<Rightarrow> editor \<Rightarrow> editor" where
  "registerCommandListener name ed = ed\<lparr>commandListeners := commandListeners ed @ [name]\<rparr>"

subsection \<open>Tree operations of the core\<close>

text \<open>
  Modelled from the spec: \<^verbatim>\<open>$createParagraphNode()\<close> builds a fresh default Paragraph: no
  parent, no children, indent 0, no direction. It is stored under the next key of the
  editor's key source.
\<close>

definition emptyParagraph :: lexical_node where
  "emptyParagraph =
     \<lparr>node_type = ParagraphNode, parent = None, children = [], indent = 0,
      direction = None, textContent = [], canInsertTab = False\<rparr>"

definition createParagraphNode :: "editor \<Rightarrow> node_key \<times> editor" where
  "createParagraphNode ed =
     (Key (keyCounter ed),
      (setNodeMap ((getNodeMap ed)(Key (keyCounter ed) \<mapsto> emptyParagraph)) ed)
        \<lparr>keyCounter := Suc (keyCounter ed)\<rparr>)"

text \<open>
  Modelled from the spec: a node has at most one parent (section 3), so a node that is
  placed somewhere first leaves the child list of the parent it had.
\<close>

definition removeFromParent :: "node_key \<Rightarrow> node_map \<Rightarrow> node_map" where
  "removeFromParent k nm =
     (case nm k of
        None \<Rightarrow> nm
      | Some n \<Rightarrow>
          (case parent n of
             None \<Rightarrow> nm
           | Some p \<Rightarrow> updateNode p (\<lambda>q. q\<lparr>children := remove1 k (children q)\<rparr>) nm))"

text \<open>
  Modelled from the spec: \<^verbatim>\<open>element.append(child)\<close> reparents the child: it leaves its
  old parent, its parent link becomes the element, and its key goes to the end of the
  element's child list.
\<close>

definition append_child :: "node_key \<Rightarrow> node_key \<Rightarrow> node_map \<Rightarrow> node_map" where
  "append_child e c nm =
     updateNode e (\<lambda>n. n\<lparr>children := children n @ [c]\<rparr>)
       (updateNode c (\<lambda>n. n\<lparr>parent := Some e\<rparr>) (removeFromParent c nm))"

text \<open>
  Modelled from the spec: \<^verbatim>\<open>element.getChildren()\<close> yields the element's children in
  order, as nodes: the keys of the child list that resolve to a node.
\<close>

definition getChildren :: "node_map \<Rightarrow> node_key \<Rightarrow> error + node_key list" where
  "getChildren nm k =
     (case nm k of
        None \<Rightarrow> Inl NodeNotFound
      | Some n \<Rightarrow> Inr (filter (\<lambda>c. nm c \<noteq> None) (children n)))"

text \<open>
  The two edits of a child list that \<open>replace\<close> and \<open>insertAfter\<close> below make: the first
  occurrence of a key gives way to another key, or gets another key as its successor.
\<close>

fun replaceFirst :: "node_key \<Rightarrow> node_key \<Rightarrow> node_key list \<Rightarrow> node_key list" where
  "replaceFirst x y [] = []"
| "replaceFirst x y (z # zs) = (if z = x then y # zs else z # replaceFirst x y zs)"

fun insertAfterKey :: "node_key \<Rightarrow> node_key \<Rightarrow> node_key list \<Rightarrow> node_key list" where
  "insertAfterKey x y [] = []"
| "insertAfterKey x y (z # zs) = (if z = x then z # y # zs else z # insertAfterKey x y zs)"

text \<open>
  Modelled from the spec: \<^verbatim>\<open>node.replace(other)\<close> puts the other node at this node's place
  in the parent's child list and removes this node from the tree. A node with no parent,
  or one that its parent does not list, has no place: a structural invariant violation,
  surfaced as a hard error (section 7). The spec says nothing about what the operation
  does to the selection; the model leaves the selection as it is, and no property below
  speaks about the selection after a tree operation.
\<close>

definition replace :: "node_key \<Rightarrow> node_key \<Rightarrow> node_map \<Rightarrow> error + node_map" where
  "replace this other nm =
     (case getNode nm this of
        Inl e \<Rightarrow> Inl e
      | Inr n \<Rightarrow>
          (case getParentOrThrow (removeFromParent other nm) n of
             Inl e \<Rightarrow> Inl e
           | Inr (p, q) \<Rightarrow>
               if this \<notin> set (children q) then Inl NotAChild
               else Inr (updateNode this (\<lambda>n. n\<lparr>parent := None\<rparr>)
                          (updateNode other (\<lambda>n. n\<lparr>parent := Some p\<rparr>)
                            (updateNode p
                               (\<lambda>q. q\<lparr>children := replaceFirst this other (children q)\<rparr>)
                               (removeFromParent other nm))))))"

text \<open>
  Modelled from the spec: \<^verbatim>\<open>node.insertAfter(other)\<close> puts the other node immediately
  after this node in the parent's child list, with the same failure cases as \<open>replace\<close>.
\<close>

definition insertAfter :: "node_key \<Rightarrow> node_key \<Rightarrow> node_map \<Rightarrow> error + node_map" where
  "insertAfter this other nm =
     (case getNode nm this of
        Inl e \<Rightarrow> Inl e
      | Inr n \<Rightarrow>
          (case getParentOrThrow (removeFromParent other nm) n of
             Inl e \<Rightarrow> Inl e
           | Inr (p, q) \<Rightarrow>
               if this \<notin> set (children q) then Inl NotAChild
               else Inr (updateNode other (\<lambda>n. n\<lparr>parent := Some p\<rparr>)
                          (updateNode p
                             (\<lambda>q. q\<lparr>children := insertAfterKey this other (children q)\<rparr>)
                             (removeFromParent other nm)))))"

text \<open>Modelled from the spec: \<^verbatim>\<open>element.setDirection(d)\<close> stores the text direction.\<close>

definition setDirection :: "node_key \<Rightarrow> direction option \<Rightarrow> editor \<Rightarrow> editor" where
  "setDirection k d ed =
     setNodeMap (updateNode k (\<lambda>n. n\<lparr>direction := d\<rparr>) (getNodeMap ed)) ed"

text \<open>
  Modelled from the spec: \<^verbatim>\<open>element.select()\<close> places the caret, collapsed, inside the
  element at the end of its child list; for the empty paragraph of the initialisation
  this is offset 0.
\<close>

definition select :: "node_key \<Rightarrow> editor \<Rightarrow> error + editor" where
  "select k ed =
     (case getNode (getNodeMap ed) k of
        Inl e \<Rightarrow> Inl e
      | Inr n \<Rightarrow>
          Inr (ed\<lparr>editorState := (editorState ed)
                 \<lparr>selection := RangeSelection
                    \<lparr>anchor = \<lparr>key = k, offset = int (length (children n)), ptype = ElementPoint\<rparr>,
                     focus = \<lparr>key = k, offset = int (length (children n)), ptype = ElementPoint\<rparr>\<rparr>\<rparr>\<rparr>))"

text \<open>
  Modelled from the spec: \<^verbatim>\<open>element.getFirstChild()\<close> is the first child node, or
  \<^verbatim>\<open>null\<close> when there is none.
\<close>

definition getFirstChild :: "node_map \<Rightarrow> lexical_node \<Rightarrow> lexical_node option" where
  "getFirstChild nm n = (case children n of [] \<Rightarrow> None | c # _ \<Rightarrow> nm c)"

subsection \<open>The Quote and Heading nodes\<close>

text \<open>
  The two classes have the same two mutation methods. \<open>this\<close> is the key of the node the
  method is called on.
\<close>

definition QuoteNode_insertNewAfter :: "editor \<Rightarrow> node_key \<Rightarrow> error + node_key \<times> editor" where
  "QuoteNode_insertNewAfter ed this =
     (case createParagraphNode ed of
        (newBlock, ed1) \<Rightarrow>
          (case getNode (getNodeMap ed1) this of
             Inl e \<Rightarrow> Inl e
           | Inr n \<Rightarrow>
               (case insertAfter this newBlock
                       (getNodeMap (setDirection newBlock (direction n) ed1)) of
                  Inl e \<Rightarrow> Inl e
                | Inr nm \<Rightarrow>
                    Inr (newBlock, setNodeMap nm (setDirection newBlock (direction n) ed1)))))"

definition QuoteNode_collapseAtStart :: "editor \<Rightarrow> node_key \<Rightarrow> error + bool \<times> editor" where
  "QuoteNode_collapseAtStart ed this =
     (case createParagraphNode ed of
        (paragraph, ed1) \<Rightarrow>
          (case getChildren (getNodeMap ed1) this of
             Inl e \<Rightarrow> Inl e
           | Inr cs \<Rightarrow>
               (case replace this paragraph (fold (append_child paragraph) cs (getNodeMap ed1)) of
                  Inl e \<Rightarrow> Inl e
                | Inr nm \<Rightarrow> Inr (True, setNodeMap nm ed1))))"

definition HeadingNode_insertNewAfter :: "editor \<Rightarrow> node_key \<Rightarrow> error + node_key \<times> editor" where
  "HeadingNode_insertNewAfter ed this =
     (case createParagraphNode ed of
        (newElement, ed1) \<Rightarrow>
          (case getNode (getNodeMap ed1) this of
             Inl e \<Rightarrow> Inl e
           | Inr n \<Rightarrow>
               (case insertAfter this newElement
                       (getNodeMap (setDirection newElement (direction n) ed1)) of
                  Inl e \<Rightarrow> Inl e
                | Inr nm \<Rightarrow>
                    Inr (newElement, setNodeMap nm (setDirection newElement (direction n) ed1)))))"

definition HeadingNode_collapseAtStart :: "editor \<Rightarrow> node_key \<Rightarrow> error + bool \<times> editor" where
  "HeadingNode_collapseAtStart ed this =
     (case createParagraphNode ed of
        (paragraph, ed1) \<Rightarrow>
          (case getChildren (getNodeMap ed1) this of
             Inl e \<Rightarrow> Inl e
           | Inr cs \<Rightarrow>
               (case replace this paragraph (fold (append_child paragraph) cs (getNodeMap ed1)) of
                  Inl e \<Rightarrow> Inl e
                | Inr nm \<Rightarrow> Inr (True, setNodeMap nm ed1))))"

subsection \<open>initializeEditor and registerRichText\<close>

text \<open>
  The optional argument \<^verbatim>\<open>initialEditorState\<close>: absent (\<^verbatim>\<open>undefined\<close>), \<^verbatim>\<open>null\<close>, a
  serialized string, an editor state object, or a function to run in an update.
\<close>

datatype initial_editor_state =
    Undefined
  | Null
  | SerializedState string
  | EditorStateObject editor_state
  | UpdateFunction "editor \<Rightarrow> error + editor"

text \<open>
  Modelled from the spec: \<^verbatim>\<open>editor.update(fn, {tag})\<close> runs the function once inside a
  mutation transaction, and \<^verbatim>\<open>editor.setEditorState(state, {tag})\<close> installs a state
  (section 6). Both leave their tag in the editor's record of transactions.
\<close>

definition update :: "(editor \<Rightarrow> error + editor) \<Rightarrow> string \<Rightarrow> editor \<Rightarrow> error + editor" where
  "update f tag ed =
     (case f ed of
        Inl e \<Rightarrow> Inl e
      | Inr ed' \<Rightarrow> Inr (ed'\<lparr>updateTags := updateTags ed' @ [tag]\<rparr>))"

definition setEditorState :: "editor_state \<Rightarrow> string \<Rightarrow> editor \<Rightarrow> editor" where
  "setEditorState st tag ed = ed\<lparr>editorState := st, updateTags := updateTags ed @ [tag]\<rparr>"

text \<open>
  The function that \<open>initializeEditor\<close> passes to \<^verbatim>\<open>editor.update\<close> when there is no
  initial state. \<^verbatim>\<open>$getRoot()\<close> reads the node under the root key.
\<close>

definition initializeDefault :: "editor \<Rightarrow> error + editor" where
  "initializeDefault ed =
     (case getNode (getNodeMap ed) RootKey of
        Inl e \<Rightarrow> Inl e
      | Inr root \<Rightarrow>
          (case getFirstChild (getNodeMap ed) root of
             Some firstChild \<Rightarrow> Inr ed
           | None \<Rightarrow>
               (case createParagraphNode ed of
                  (paragraph, ed1) \<Rightarrow>
                    (case setNodeMap (append_child RootKey paragraph (getNodeMap ed1)) ed1 of
                       ed2 \<Rightarrow>
                         if getSelection ed2 \<noteq> NoSelection
                            \<or> (activeElement ed2 \<noteq> None
                                \<and> activeElement ed2 = rootElement ed2)
                         then select paragraph ed2
                         else Inr ed2))))"

text \<open>
  \<open>parseEditorState\<close> stands for \<^verbatim>\<open>editor.parseEditorState\<close>, the deserializer of the
  core.
\<close>

definition initializeEditor ::
  "(string \<Rightarrow> editor_state) \<Rightarrow> editor \<Rightarrow> initial_editor_state \<Rightarrow> error + editor" where
  "initializeEditor parseEditorState ed initialEditorState =
     (case initialEditorState of
        Null \<Rightarrow> Inr ed
      | Undefined \<Rightarrow> update initializeDefault ''history-merge'' ed
      | SerializedState s \<Rightarrow> Inr (setEditorState (parseEditorState s) ''history-merge'' ed)
      | EditorStateObject st \<Rightarrow> Inr (setEditorState st ''history-merge'' ed)
      | UpdateFunction f \<Rightarrow> update f ''history-merge'' ed)"

text \<open>
  \<open>registerRichText\<close> registers the listeners, then initialises the editor. The function
  it returns, which unregisters the listeners again, is not part of the model.
\<close>

definition registerRichText ::
  "(string \<Rightarrow> editor_state) \<Rightarrow> editor \<Rightarrow> initial_editor_state \<Rightarrow> error + editor" where
  "registerRichText parseEditorState ed initialEditorState =
     initializeEditor parseEditorState (fold registerCommandListener richTextCommands ed)
       initialEditorState"


section \<open>Caret positions in the words of the specification\<close>

text \<open>
  The listeners test the anchor's offset inside the anchor's own node, and the outdent
  listener indexes the text of the anchor's node. The specification (section 4.2) speaks
  of positions inside the containing block: a selection collapsed at offset 0 of its
  containing block, and the character immediately before the caret. The definitions of
  this section follow those words, for a block whose children are text nodes; they are
  compared below with what the listeners compute.
\<close>

definition nodeText :: "node_map \<Rightarrow> node_key \<Rightarrow> string" where
  "nodeText nm k = (case nm k of None \<Rightarrow> [] | Some n \<Rightarrow> textContent n)"

text \<open>
  The text of the containing block that stands before a point: for an element point, the
  text of the children before the child index; for a text point, the text of the siblings
  before the point's node, followed by that node's text up to the offset.
\<close>

definition textBeforeCaret :: "node_map \<Rightarrow> point \<Rightarrow> string" where
  "textBeforeCaret nm a =
     (case parentBlock nm a of
        Inl e \<Rightarrow> []
      | Inr (k, blk) \<Rightarrow>
          if ptype a = ElementPoint
          then concat (map (nodeText nm) (take (nat (offset a)) (children blk)))
          else concat (map (nodeText nm) (takeWhile (\<lambda>c. c \<noteq> key a) (children blk)))
                 @ take (nat (offset a)) (nodeText nm (key a)))"


text \<open>
  A point at offset 0 of its containing block: an element point on the block at child
  index 0, or a text point at offset 0 of the block's first child.
\<close>

definition atBlockStart :: "node_map \<Rightarrow> point \<Rightarrow> bool" where
  "atBlockStart nm a =
     (offset a = 0
      \<and> (case parentBlock nm a of
            Inl e \<Rightarrow> False
          | Inr (k, blk) \<Rightarrow>
              ptype a = ElementPoint
              \<or> (case children blk of [] \<Rightarrow> False | c # cs \<Rightarrow> c = key a)))"

section \<open>Example states\<close>

text \<open>
  A small document: the root holds a block (key 2) and an empty paragraph (key 5); the
  block holds two text nodes (keys 3 and 4). The block's kind, indent, tab capability and
  first text are parameters, as is the selection.
\<close>

definition exampleNodes :: "node_type \<Rightarrow> int \<Rightarrow> bool \<Rightarrow> string \<Rightarrow> node_map" where
  "exampleNodes ty ind tab txt =
     [RootKey \<mapsto> \<lparr>node_type = RootNode, parent = None, children = [Key 2, Key 5], indent = 0,
                  direction = None, textContent = txt @ ''z'', canInsertTab = False\<rparr>,
      Key 2 \<mapsto> \<lparr>node_type = ty, parent = Some RootKey, children = [Key 3, Key 4], indent = ind,
                direction = Some RTL, textContent = txt @ ''z'', canInsertTab = tab\<rparr>,
      Key 3 \<mapsto> \<lparr>node_type = TextNode, parent = Some (Key 2), children = [], indent = 0,
                direction = None, textContent = txt, canInsertTab = False\<rparr>,
      Key 4 \<mapsto> \<lparr>node_type = TextNode, parent = Some (Key 2), children = [], indent = 0,
                direction = None, textContent = ''z'', canInsertTab = False\<rparr>,
      Key 5 \<mapsto> emptyParagraph\<lparr>parent := Some RootKey\<rparr>]"

definition exampleEditor ::
  "node_type \<Rightarrow> int \<Rightarrow> bool \<Rightarrow> string \<Rightarrow> selection \<Rightarrow> editor" where
  "exampleEditor ty ind tab txt sel =
     \<lparr>editorState = \<lparr>nodeMap = exampleNodes ty ind tab txt, selection = sel\<rparr>,
      keyCounter = 6, commandListeners = richTextCommands, modelCalls = [],
      updateTags = [], activeElement = Some 0, rootElement = Some 0,
      defaultPrevented = False\<rparr>"

text \<open>A collapsed Range selection in the text node with key 3, and one that spans it.\<close>

definition caretAt :: "int \<Rightarrow> range_selection" where
  "caretAt i =
     \<lparr>anchor = \<lparr>key = Key 3, offset = i, ptype = TextPoint\<rparr>,
      focus = \<lparr>key = Key 3, offset = i, ptype = TextPoint\<rparr>\<rparr>"

definition rangeFrom :: "int \<Rightarrow> int \<Rightarrow> range_selection" where
  "rangeFrom i j =
     \<lparr>anchor = \<lparr>key = Key 3, offset = i, ptype = TextPoint\<rparr>,
      focus = \<lparr>key = Key 3, offset = j, ptype = TextPoint\<rparr>\<rparr>"

text \<open>
  A collapsed Range selection in the text node with the given key, and one on the block
  with key 2 at the given child index.
\<close>

definition caretIn :: "node_key \<Rightarrow> int \<Rightarrow> range_selection" where
  "caretIn k i =
     \<lparr>anchor = \<lparr>key = k, offset = i, ptype = TextPoint\<rparr>,
      focus = \<lparr>key = k, offset = i, ptype = TextPoint\<rparr>\<rparr>"

definition caretOnBlock :: "int \<Rightarrow> range_selection" where
  "caretOnBlock i =
     \<lparr>anchor = \<lparr>key = Key 2, offset = i, ptype = ElementPoint\<rparr>,
      focus = \<lparr>key = Key 2, offset = i, ptype = ElementPoint\<rparr>\<rparr>"

text \<open>An editor whose document is a root without children, with no listeners yet.\<close>

definition blankEditor :: "selection \<Rightarrow> nat option \<Rightarrow> editor" where
  "blankEditor sel active =
     \<lparr>editorState =
        \<lparr>nodeMap = [RootKey \<mapsto> \<lparr>node_type = RootNode, parent = None, children = [],
                      indent = 0, direction = None, textContent = [], canInsertTab = False\<rparr>],
         selection = sel\<rparr>,
      keyCounter = 2, commandListeners = [], modelCalls = [],
      updateTags = [], activeElement = active, rootElement = Some 0,
      defaultPrevented = False\<rparr>"

text \<open>An external model that leaves the editor state alone, for the example runs.\<close>

definition inertModel :: external_model where
  "inertModel c st = st"

text \<open>A deserializer that yields an empty editor state, for the example runs.\<close>

definition blankParser :: "string \<Rightarrow> editor_state" where
  "blankParser s = \<lparr>nodeMap = Map.empty, selection = NoSelection\<rparr>"

section \<open>Dispatch through the registry\<close>

declare execCommand.simps [simp del]
declare triggerCommandListeners.simps [simp del]
declare listener.simps [simp del]

lemma filter_registered:
  "n \<in> set L \<Longrightarrow> \<exists>ns. filter (\<lambda>m. m = n) L = n # ns"
  by (induction L) auto

lemma execCommand_handled:
  assumes "commandName c \<in> set (commandListeners ed)"
    and "listener M ed c = Inr (True, ed')"
  shows "execCommand M ed c = Inr (True, ed')"
proof -
  obtain ns where "filter (\<lambda>m. m = commandName c) (commandListeners ed) = commandName c # ns"
    using filter_registered [OF assms(1)] by blast
  then show ?thesis
    by (simp add: execCommand.simps triggerCommandListeners.simps assms(2))
qed

lemma triggerCommandListeners_declined:
  "listener M ed c = Inr (False, ed) \<Longrightarrow> triggerCommandListeners M ns ed c = Inr (False, ed)"
  by (induction ns) (simp_all add: triggerCommandListeners.simps)

lemma execCommand_declined:
  "listener M ed c = Inr (False, ed) \<Longrightarrow> execCommand M ed c = Inr (False, ed)"
  by (simp add: execCommand.simps triggerCommandListeners_declined)

lemma parentBlock_lookup:
  "parentBlock nm a = Inr (k, blk) \<Longrightarrow> nm k = Some blk"
  by (auto simp: parentBlock_def getNode_def getParentOrThrow_def split: if_splits option.splits)

lemma parentBlock_getNode:
  "parentBlock nm a = Inr (k, blk) \<Longrightarrow> \<exists>n. getNode nm (key a) = Inr n"
  by (auto simp: parentBlock_def getNode_def split: if_splits option.splits)

lemma setIndent_simps:
  "getNodeMap (setIndent k v ed) = updateNode k (\<lambda>n. n\<lparr>indent := v\<rparr>) (getNodeMap ed)"
  "getSelection (setIndent k v ed) = getSelection ed"
  "modelCalls (setIndent k v ed) = modelCalls ed"
  "commandListeners (setIndent k v ed) = commandListeners ed"
  by (simp_all add: setIndent_def setNodeMap_def getNodeMap_def getSelection_def)

lemma preventDefault_simps:
  "getNodeMap (preventDefault ed) = getNodeMap ed"
  "getSelection (preventDefault ed) = getSelection ed"
  "modelCalls (preventDefault ed) = modelCalls ed"
  "commandListeners (preventDefault ed) = commandListeners ed"
  "preventDefault (preventDefault ed) = preventDefault ed"
  by (simp_all add: preventDefault_def getNodeMap_def getSelection_def)

lemma callModel_simps:
  "editorState (callModel M c ed) = M c (editorState ed)"
  "modelCalls (callModel M c ed) = modelCalls ed @ [c]"
  "commandListeners (callModel M c ed) = commandListeners ed"
  by (simp_all add: callModel_def)

lemma deleteCharacter_result:
  assumes "getSelection ed = RangeSelection sel"
    and "''deleteCharacter'' \<in> set (commandListeners ed)"
  shows "execCommand M ed (DeleteCharacter b) =
           Inr (True, callModel M (Selection_deleteCharacter b) ed)"
  using assms by (intro execCommand_handled) (simp_all add: listener.simps)

lemma insertText_result:
  assumes "getSelection ed = RangeSelection sel"
    and "''insertText'' \<in> set (commandListeners ed)"
  shows "execCommand M ed (InsertText (TextString s)) =
           Inr (True, callModel M (Selection_insertText s) ed)"
  using assms by (intro execCommand_handled) (simp_all add: listener.simps)

lemma outdentContent_result:
  assumes "getSelection ed = RangeSelection sel"
    and "getNode (getNodeMap ed) (key (anchor sel)) = Inr anchorNode"
    and "parentBlock (getNodeMap ed) (anchor sel) = Inr (k, blk)"
    and "''outdentContent'' \<in> set (commandListeners ed)"
    and "''deleteCharacter'' \<in> set (commandListeners ed)"
  shows "execCommand M ed OutdentContent =
           Inr (True,
                if canInsertTab blk
                then (if charAt (textContent anchorNode) (offset (anchor sel) - 1) = Some TAB
                      then callModel M (Selection_deleteCharacter True) ed
                      else ed)
                else if indent blk = 0 then ed
                else setIndent k (indent blk - 1) ed)"
  using assms
  by (intro execCommand_handled) (simp_all add: listener.simps deleteCharacter_result)

subsection \<open>Facts about the example states\<close>

lemma richTextCommands_registered:
  "''deleteCharacter'' \<in> set richTextCommands"
  "''insertText'' \<in> set richTextCommands"
  "''indentContent'' \<in> set richTextCommands"
  "''outdentContent'' \<in> set richTextCommands"
  "''keyBackspace'' \<in> set richTextCommands"
  "''keyTab'' \<in> set richTextCommands"
  by (simp_all add: richTextCommands_def)

lemma exampleEditor_simps:
  "getSelection (exampleEditor ty ind tab txt sel) = sel"
  "getNodeMap (exampleEditor ty ind tab txt sel) = exampleNodes ty ind tab txt"
  "commandListeners (exampleEditor ty ind tab txt sel) = richTextCommands"
  "modelCalls (exampleEditor ty ind tab txt sel) = []"
  "keyCounter (exampleEditor ty ind tab txt sel) = 6"
  by (simp_all add: exampleEditor_def getSelection_def getNodeMap_def)

lemma exampleNodes_simps:
  "exampleNodes ty ind tab txt (Key 2) =
     Some \<lparr>node_type = ty, parent = Some RootKey, children = [Key 3, Key 4], indent = ind,
           direction = Some RTL, textContent = txt @ ''z'', canInsertTab = tab\<rparr>"
  "exampleNodes ty ind tab txt (Key 3) =
     Some \<lparr>node_type = TextNode, parent = Some (Key 2), children = [], indent = 0,
           direction = None, textContent = txt, canInsertTab = False\<rparr>"
  "exampleNodes ty ind tab txt (Key 4) =
     Some \<lparr>node_type = TextNode, parent = Some (Key 2), children = [], indent = 0,
           direction = None, textContent = ''z'', canInsertTab = False\<rparr>"
  "exampleNodes ty ind tab txt RootKey =
     Some \<lparr>node_type = RootNode, parent = None, children = [Key 2, Key 5], indent = 0,
           direction = None, textContent = txt @ ''z'', canInsertTab = False\<rparr>"
  "exampleNodes ty ind tab txt (Key 6) = None"
  by (simp_all add: exampleNodes_def)

lemma example_parentBlock:
  "parentBlock (exampleNodes ty ind tab txt) \<lparr>key = Key 3, offset = i, ptype = TextPoint\<rparr> =
     Inr (Key 2,
          \<lparr>node_type = ty, parent = Some RootKey, children = [Key 3, Key 4], indent = ind,
           direction = Some RTL, textContent = txt @ ''z'', canInsertTab = tab\<rparr>)"
  by (simp add: parentBlock_def getNode_def getParentOrThrow_def exampleNodes_simps)

lemma example_anchorNode:
  "getNode (exampleNodes ty ind tab txt) (Key 3) =
     Inr \<lparr>node_type = TextNode, parent = Some (Key 2), children = [], indent = 0,
          direction = None, textContent = txt, canInsertTab = False\<rparr>"
  by (simp add: getNode_def exampleNodes_simps)

section \<open>Properties of the command listeners\<close>

text \<open>
  C6. For the commands with a boolean payload (\<^verbatim>\<open>deleteCharacter\<close>, \<^verbatim>\<open>deleteWord\<close>,
  \<^verbatim>\<open>deleteLine\<close>, \<^verbatim>\<open>insertLineBreak\<close>) and a selection that is not a Range selection, the
  dispatch returns \<^verbatim>\<open>false\<close> and the editor, with its document, is exactly as before.
  This holds for every registry, also one in which the listener is registered several
  times or not at all.
\<close>

theorem boolean_commands_decline_without_range:
  assumes "\<forall>sel. getSelection ed \<noteq> RangeSelection sel"
    and "c = DeleteCharacter b \<or> c = DeleteWord b \<or> c = DeleteLine b \<or> c = InsertLineBreak b"
  shows "execCommand M ed c = Inr (False, ed)"
proof -
  have "listener M ed c = Inr (False, ed)"
    using assms by (auto simp: listener.simps split: selection.splits)
  then show ?thesis by (rule execCommand_declined)
qed

theorem boolean_commands_decline_without_range_witness:
  "(\<forall>sel. getSelection (exampleEditor QuoteNode 0 False ''ab'' (NodeSelection [Key 2]))
            \<noteq> RangeSelection sel)
   \<and> execCommand inertModel (exampleEditor QuoteNode 0 False ''ab'' (NodeSelection [Key 2]))
        (DeleteWord True)
      = Inr (False, exampleEditor QuoteNode 0 False ''ab'' (NodeSelection [Key 2]))
   \<and> (\<forall>sel. getSelection (exampleEditor QuoteNode 0 False ''ab'' NoSelection)
            \<noteq> RangeSelection sel)
   \<and> execCommand inertModel (exampleEditor QuoteNode 0 False ''ab'' NoSelection)
        (InsertLineBreak False)
      = Inr (False, exampleEditor QuoteNode 0 False ''ab'' NoSelection)"
proof -
  have h1: "\<forall>sel. getSelection (exampleEditor QuoteNode 0 False ''ab'' (NodeSelection [Key 2]))
            \<noteq> RangeSelection sel"
    by (simp add: exampleEditor_simps)
  have h2: "\<forall>sel. getSelection (exampleEditor QuoteNode 0 False ''ab'' NoSelection)
            \<noteq> RangeSelection sel"
    by (simp add: exampleEditor_simps)
  show ?thesis
    using h1 h2
      boolean_commands_decline_without_range [OF h1, of "DeleteWord True" True inertModel]
      boolean_commands_decline_without_range [OF h2, of "InsertLineBreak False" False inertModel]
    by simp
qed

text \<open>
  C2, as the code has it. The \<^verbatim>\<open>deleteCharacter\<close> listener never looks at the caret
  position or at the indent: with a Range selection it always calls the selection's
  character deletion with the payload and returns \<^verbatim>\<open>true\<close>. (The outdent at offset 0
  of an indented block belongs to the \<^verbatim>\<open>keyBackspace\<close> listener.)
\<close>

theorem deleteCharacter_backward_delegates:
  assumes "getSelection ed = RangeSelection sel"
    and "''deleteCharacter'' \<in> set (commandListeners ed)"
  shows "execCommand M ed (DeleteCharacter True) =
           Inr (True, callModel M (Selection_deleteCharacter True) ed)
         \<and> modelCalls (callModel M (Selection_deleteCharacter True) ed) =
             modelCalls ed @ [Selection_deleteCharacter True]
         \<and> editorState (callModel M (Selection_deleteCharacter True) ed) =
             M (Selection_deleteCharacter True) (editorState ed)"
  using deleteCharacter_result [OF assms] by (simp add: callModel_simps)

theorem deleteCharacter_backward_delegates_witness:
  "getSelection (exampleEditor ParagraphNode 1 False ''ab'' (RangeSelection (caretAt 0)))
     = RangeSelection (caretAt 0)
   \<and> ''deleteCharacter'' \<in> set (commandListeners
        (exampleEditor ParagraphNode 1 False ''ab'' (RangeSelection (caretAt 0))))
   \<and> execCommand inertModel
        (exampleEditor ParagraphNode 1 False ''ab'' (RangeSelection (caretAt 0)))
        (DeleteCharacter True)
      = Inr (True, callModel inertModel (Selection_deleteCharacter True)
               (exampleEditor ParagraphNode 1 False ''ab'' (RangeSelection (caretAt 0))))"
proof -
  let ?ed = "exampleEditor ParagraphNode 1 False ''ab'' (RangeSelection (caretAt 0))"
  have h1: "getSelection ?ed = RangeSelection (caretAt 0)"
    by (simp add: exampleEditor_simps)
  have h2: "''deleteCharacter'' \<in> set (commandListeners ?ed)"
    by (simp add: exampleEditor_simps richTextCommands_registered)
  show ?thesis
    using h1 h2 deleteCharacter_backward_delegates [OF h1 h2, of inertModel] by simp
qed

text \<open>
  C2, as the claim states it, fails. The caret is collapsed at offset 0 of a paragraph
  with indent 1, and \<^verbatim>\<open>deleteCharacter\<close> is dispatched with \<^verbatim>\<open>true\<close>: the listener calls
  the character deletion once and the indent is still 1, whereas a dispatch of
  \<^verbatim>\<open>outdentContent\<close> in the same state makes no such call and lowers the indent to 0.
\<close>

theorem deleteCharacter_outdent_counterexample:
  "isCollapsed (caretAt 0) \<and> offset (anchor (caretAt 0)) = 0
   \<and> parentBlock
        (getNodeMap (exampleEditor ParagraphNode 1 False ''ab'' (RangeSelection (caretAt 0))))
        (anchor (caretAt 0))
      = Inr (Key 2,
          \<lparr>node_type = ParagraphNode, parent = Some RootKey, children = [Key 3, Key 4],
           indent = 1, direction = Some RTL, textContent = ''abz'', canInsertTab = False\<rparr>)
   \<and> execCommand inertModel
        (exampleEditor ParagraphNode 1 False ''ab'' (RangeSelection (caretAt 0)))
        (DeleteCharacter True)
      = Inr (True,
          (exampleEditor ParagraphNode 1 False ''ab'' (RangeSelection (caretAt 0)))
            \<lparr>modelCalls := [Selection_deleteCharacter True]\<rparr>)
   \<and> execCommand inertModel
        (exampleEditor ParagraphNode 1 False ''ab'' (RangeSelection (caretAt 0)))
        OutdentContent
      = Inr (True,
          setIndent (Key 2) 0
            (exampleEditor ParagraphNode 1 False ''ab'' (RangeSelection (caretAt 0))))
   \<and> execCommand inertModel
        (exampleEditor ParagraphNode 1 False ''ab'' (RangeSelection (caretAt 0)))
        (DeleteCharacter True)
      \<noteq> execCommand inertModel
        (exampleEditor ParagraphNode 1 False ''ab'' (RangeSelection (caretAt 0)))
        OutdentContent"
proof -
  let ?ed = "exampleEditor ParagraphNode 1 False ''ab'' (RangeSelection (caretAt 0))"
  have del: "execCommand inertModel ?ed (DeleteCharacter True) =
               Inr (True, ?ed\<lparr>modelCalls := [Selection_deleteCharacter True]\<rparr>)"
    using deleteCharacter_result [of ?ed "caretAt 0" inertModel True]
    by (simp add: exampleEditor_simps richTextCommands_registered callModel_def inertModel_def)
  have out: "execCommand inertModel ?ed OutdentContent = Inr (True, setIndent (Key 2) 0 ?ed)"
    using outdentContent_result [of ?ed "caretAt 0" _ "Key 2" _ inertModel]
    by (simp add: exampleEditor_simps richTextCommands_registered caretAt_def
        example_parentBlock example_anchorNode)
  have "modelCalls (?ed\<lparr>modelCalls := [Selection_deleteCharacter True]\<rparr>)
          \<noteq> modelCalls (setIndent (Key 2) 0 ?ed)"
    by (simp add: setIndent_simps exampleEditor_simps)
  then have "?ed\<lparr>modelCalls := [Selection_deleteCharacter True]\<rparr> \<noteq> setIndent (Key 2) 0 ?ed"
    by metis
  then show ?thesis
    using del out
    by (simp add: isCollapsed_def caretAt_def exampleEditor_simps example_parentBlock)
qed

text \<open>
  C3. \<^verbatim>\<open>indentContent\<close> with a Range selection whose anchor has a containing block: a
  block that can take a tab gets the text \<^verbatim>\<open>'\t'\<close> inserted through a re-dispatch of
  \<^verbatim>\<open>insertText\<close>, and the listener writes no indent; any other block has its indent
  raised by one, unless the indent is 10, in which case the editor is returned as it was
  (so a further dispatch finds the same state again). The dispatch returns \<^verbatim>\<open>true\<close>.
\<close>

theorem indentContent_dispatch:
  assumes "getSelection ed = RangeSelection sel"
    and "parentBlock (getNodeMap ed) (anchor sel) = Inr (k, blk)"
    and "''indentContent'' \<in> set (commandListeners ed)"
    and "''insertText'' \<in> set (commandListeners ed)"
  shows "execCommand M ed IndentContent =
           Inr (True,
                if canInsertTab blk then callModel M (Selection_insertText [TAB]) ed
                else if indent blk = 10 then ed
                else setIndent k (indent blk + 1) ed)
         \<and> getNodeMap (setIndent k (indent blk + 1) ed) =
             (getNodeMap ed)(k \<mapsto> blk\<lparr>indent := indent blk + 1\<rparr>)
         \<and> modelCalls (setIndent k (indent blk + 1) ed) = modelCalls ed
         \<and> modelCalls (callModel M (Selection_insertText [TAB]) ed) =
             modelCalls ed @ [Selection_insertText [TAB]]"
proof -
  have "execCommand M ed IndentContent =
           Inr (True,
                if canInsertTab blk then callModel M (Selection_insertText [TAB]) ed
                else if indent blk = 10 then ed
                else setIndent k (indent blk + 1) ed)"
    using assms
    by (intro execCommand_handled) (simp_all add: listener.simps insertText_result)
  then show ?thesis
    using parentBlock_lookup [OF assms(2)]
    by (simp add: setIndent_simps callModel_simps updateNode_def)
qed

theorem indentContent_dispatch_witness:
  "execCommand inertModel
      (exampleEditor (OtherNode ''code'') 0 True ''ab'' (RangeSelection (caretAt 1)))
      IndentContent
    = Inr (True, callModel inertModel (Selection_insertText [TAB])
             (exampleEditor (OtherNode ''code'') 0 True ''ab'' (RangeSelection (caretAt 1))))
   \<and> execCommand inertModel
        (exampleEditor QuoteNode 3 False ''ab'' (RangeSelection (caretAt 1))) IndentContent
      = Inr (True, setIndent (Key 2) 4
               (exampleEditor QuoteNode 3 False ''ab'' (RangeSelection (caretAt 1))))
   \<and> execCommand inertModel
        (exampleEditor QuoteNode 10 False ''ab'' (RangeSelection (caretAt 1))) IndentContent
      = Inr (True, exampleEditor QuoteNode 10 False ''ab'' (RangeSelection (caretAt 1)))"
proof -
  let ?sel = "RangeSelection (caretAt 1)"
  have sel: "getSelection (exampleEditor ty ind tab ''ab'' ?sel) = RangeSelection (caretAt 1)"
    for ty ind tab
    by (simp add: exampleEditor_simps)
  have blk: "parentBlock (getNodeMap (exampleEditor ty ind tab ''ab'' ?sel)) (anchor (caretAt 1))
      = Inr (Key 2,
          \<lparr>node_type = ty, parent = Some RootKey, children = [Key 3, Key 4], indent = ind,
           direction = Some RTL, textContent = ''ab'' @ ''z'', canInsertTab = tab\<rparr>)"
    for ty ind tab
    by (simp add: exampleEditor_simps caretAt_def example_parentBlock)
  have r1: "''indentContent'' \<in> set (commandListeners (exampleEditor ty ind tab ''ab'' ?sel))"
    for ty ind tab
    by (simp add: exampleEditor_simps richTextCommands_registered)
  have r2: "''insertText'' \<in> set (commandListeners (exampleEditor ty ind tab ''ab'' ?sel))"
    for ty ind tab
    by (simp add: exampleEditor_simps richTextCommands_registered)
  show ?thesis
    using indentContent_dispatch [OF sel blk r1 r2, of inertModel "OtherNode ''code''" 0 True]
      indentContent_dispatch [OF sel blk r1 r2, of inertModel QuoteNode 3 False]
      indentContent_dispatch [OF sel blk r1 r2, of inertModel QuoteNode 10 False]
    by simp
qed

subsection \<open>The caret of the specification and the offset of the listeners\<close>


lemma atBlockStart_offset: "atBlockStart nm a \<Longrightarrow> offset a = 0"
  by (simp add: atBlockStart_def)

lemma example_parentBlock_text:
  assumes "c = Key 3 \<or> c = Key 4"
  shows "parentBlock (exampleNodes ty ind tab s) \<lparr>key = c, offset = i, ptype = TextPoint\<rparr> =
     Inr (Key 2,
          \<lparr>node_type = ty, parent = Some RootKey, children = [Key 3, Key 4], indent = ind,
           direction = Some RTL, textContent = s @ ''z'', canInsertTab = tab\<rparr>)"
  using assms
  by (auto simp: parentBlock_def getNode_def getParentOrThrow_def exampleNodes_simps)

lemma example_parentBlock_element:
  "parentBlock (exampleNodes ty ind tab s) \<lparr>key = Key 2, offset = i, ptype = ElementPoint\<rparr> =
     Inr (Key 2,
          \<lparr>node_type = ty, parent = Some RootKey, children = [Key 3, Key 4], indent = ind,
           direction = Some RTL, textContent = s @ ''z'', canInsertTab = tab\<rparr>)"
  by (simp add: parentBlock_def getNode_def exampleNodes_simps)

lemma example_getNode:
  "getNode (exampleNodes ty ind tab s) (Key 2) =
     Inr \<lparr>node_type = ty, parent = Some RootKey, children = [Key 3, Key 4], indent = ind,
          direction = Some RTL, textContent = s @ ''z'', canInsertTab = tab\<rparr>"
  "getNode (exampleNodes ty ind tab s) (Key 3) =
     Inr \<lparr>node_type = TextNode, parent = Some (Key 2), children = [], indent = 0,
          direction = None, textContent = s, canInsertTab = False\<rparr>"
  "getNode (exampleNodes ty ind tab s) (Key 4) =
     Inr \<lparr>node_type = TextNode, parent = Some (Key 2), children = [], indent = 0,
          direction = None, textContent = ''z'', canInsertTab = False\<rparr>"
  by (simp_all add: getNode_def exampleNodes_simps)

lemma example_registered:
  "''keyBackspace'' \<in> set (commandListeners (exampleEditor ty ind tab s sel))"
  "''outdentContent'' \<in> set (commandListeners (exampleEditor ty ind tab s sel))"
  "''deleteCharacter'' \<in> set (commandListeners (exampleEditor ty ind tab s sel))"
  by (simp_all add: exampleEditor_simps richTextCommands_registered)




text \<open>
  C1, as the code has it, where the code and the words of the specification agree.
  \<^verbatim>\<open>keyBackspace\<close> with a Range selection prevents the event's default and then:
  \<^item> with the selection collapsed at offset 0 of its containing block (an element anchor
    on the block at child index 0, or a text anchor at offset 0 of the block's first
    child), where the block's indent is positive and the block cannot take a tab, the
    block's indent goes down by one and no call is made into the character deletion;
  \<^item> with the selection collapsed, the anchor's offset 0 and a containing block whose
    indent is not positive, the backward character deletion is called once and the
    listener writes no indent;
  \<^item> with a selection that is not collapsed, or whose anchor offset is not 0, likewise.
  In each case the dispatch returns \<^verbatim>\<open>true\<close>. A caret at offset 0 of a later child of an
  indented block, and a caret at offset 0 in an indented block that can take a tab, are
  left out.
\<close>

theorem keyBackspace_dispatch:
  assumes "getSelection ed = RangeSelection sel"
    and "''keyBackspace'' \<in> set (commandListeners ed)"
    and "''outdentContent'' \<in> set (commandListeners ed)"
    and "''deleteCharacter'' \<in> set (commandListeners ed)"
  shows "(isCollapsed sel \<and> atBlockStart (getNodeMap ed) (anchor sel)
            \<and> parentBlock (getNodeMap ed) (anchor sel) = Inr (k, blk)
            \<and> 0 < indent blk \<and> \<not> canInsertTab blk
          \<longrightarrow> execCommand M ed (KeyBackspace ev) =
                Inr (True, setIndent k (indent blk - 1) (preventDefault ed))
              \<and> modelCalls (setIndent k (indent blk - 1) (preventDefault ed)) = modelCalls ed
              \<and> getNodeMap (setIndent k (indent blk - 1) (preventDefault ed)) =
                  (getNodeMap ed)(k \<mapsto> blk\<lparr>indent := indent blk - 1\<rparr>))
       \<and> (isCollapsed sel \<and> offset (anchor sel) = 0
            \<and> parentBlock (getNodeMap ed) (anchor sel) = Inr (k, blk)
            \<and> indent blk \<le> 0
          \<longrightarrow> execCommand M ed (KeyBackspace ev) =
                Inr (True, callModel M (Selection_deleteCharacter True) (preventDefault ed)))
       \<and> (\<not> (isCollapsed sel \<and> offset (anchor sel) = 0)
          \<longrightarrow> execCommand M ed (KeyBackspace ev) =
                Inr (True, callModel M (Selection_deleteCharacter True) (preventDefault ed)))
       \<and> modelCalls (callModel M (Selection_deleteCharacter True) (preventDefault ed)) =
           modelCalls ed @ [Selection_deleteCharacter True]
       \<and> editorState (callModel M (Selection_deleteCharacter True) (preventDefault ed)) =
           M (Selection_deleteCharacter True) (editorState ed)"
proof (intro conjI impI)
  assume h: "isCollapsed sel \<and> atBlockStart (getNodeMap ed) (anchor sel)
            \<and> parentBlock (getNodeMap ed) (anchor sel) = Inr (k, blk)
            \<and> 0 < indent blk \<and> \<not> canInsertTab blk"
  then have zero: "offset (anchor sel) = 0"
    using atBlockStart_offset by blast
  obtain n where n: "getNode (getNodeMap ed) (key (anchor sel)) = Inr n"
    using h parentBlock_getNode by blast
  have "execCommand M (preventDefault ed) OutdentContent =
          Inr (True, setIndent k (indent blk - 1) (preventDefault ed))"
    using outdentContent_result [of "preventDefault ed" sel n k blk M] assms h n
    by (simp add: preventDefault_simps)
  then have "listener M ed (KeyBackspace ev) =
          Inr (True, setIndent k (indent blk - 1) (preventDefault ed))"
    using assms(1) h zero by (simp add: listener.simps)
  then show "execCommand M ed (KeyBackspace ev) =
          Inr (True, setIndent k (indent blk - 1) (preventDefault ed))"
    using assms(2) by (intro execCommand_handled) simp_all
  show "modelCalls (setIndent k (indent blk - 1) (preventDefault ed)) = modelCalls ed"
    by (simp add: setIndent_simps preventDefault_simps)
  show "getNodeMap (setIndent k (indent blk - 1) (preventDefault ed)) =
                  (getNodeMap ed)(k \<mapsto> blk\<lparr>indent := indent blk - 1\<rparr>)"
    using h parentBlock_lookup [of "getNodeMap ed" "anchor sel" k blk]
    by (simp add: setIndent_simps preventDefault_simps updateNode_def)
next
  assume h: "isCollapsed sel \<and> offset (anchor sel) = 0
            \<and> parentBlock (getNodeMap ed) (anchor sel) = Inr (k, blk) \<and> indent blk \<le> 0"
  have "execCommand M (preventDefault ed) (DeleteCharacter True) =
          Inr (True, callModel M (Selection_deleteCharacter True) (preventDefault ed))"
    using deleteCharacter_result [of "preventDefault ed" sel M True] assms
    by (simp add: preventDefault_simps)
  then have "listener M ed (KeyBackspace ev) =
          Inr (True, callModel M (Selection_deleteCharacter True) (preventDefault ed))"
    using assms(1) h by (simp add: listener.simps)
  then show "execCommand M ed (KeyBackspace ev) =
          Inr (True, callModel M (Selection_deleteCharacter True) (preventDefault ed))"
    using assms(2) by (intro execCommand_handled) simp_all
next
  assume h: "\<not> (isCollapsed sel \<and> offset (anchor sel) = 0)"
  have "execCommand M (preventDefault ed) (DeleteCharacter True) =
          Inr (True, callModel M (Selection_deleteCharacter True) (preventDefault ed))"
    using deleteCharacter_result [of "preventDefault ed" sel M True] assms
    by (simp add: preventDefault_simps)
  then have "listener M ed (KeyBackspace ev) =
          Inr (True, callModel M (Selection_deleteCharacter True) (preventDefault ed))"
    using assms(1) h by (auto simp: listener.simps)
  then show "execCommand M ed (KeyBackspace ev) =
          Inr (True, callModel M (Selection_deleteCharacter True) (preventDefault ed))"
    using assms(2) by (intro execCommand_handled) simp_all
next
  show "modelCalls (callModel M (Selection_deleteCharacter True) (preventDefault ed)) =
           modelCalls ed @ [Selection_deleteCharacter True]"
    by (simp add: callModel_simps preventDefault_simps)
  show "editorState (callModel M (Selection_deleteCharacter True) (preventDefault ed)) =
           M (Selection_deleteCharacter True) (editorState ed)"
    by (simp add: callModel_simps preventDefault_def)
qed

theorem keyBackspace_dispatch_witness:
  "atBlockStart (exampleNodes (HeadingNode H2) 2 False ''ab'') (anchor (caretIn (Key 3) 0))
   \<and> execCommand inertModel
        (exampleEditor (HeadingNode H2) 2 False ''ab'' (RangeSelection (caretIn (Key 3) 0)))
        (KeyBackspace \<lparr>shiftKey = False\<rparr>)
      = Inr (True, setIndent (Key 2) 1 (preventDefault
          (exampleEditor (HeadingNode H2) 2 False ''ab'' (RangeSelection (caretIn (Key 3) 0)))))
   \<and> atBlockStart (exampleNodes QuoteNode 1 False ''ab'') (anchor (caretOnBlock 0))
   \<and> execCommand inertModel
        (exampleEditor QuoteNode 1 False ''ab'' (RangeSelection (caretOnBlock 0)))
        (KeyBackspace \<lparr>shiftKey = False\<rparr>)
      = Inr (True, setIndent (Key 2) 0 (preventDefault
          (exampleEditor QuoteNode 1 False ''ab'' (RangeSelection (caretOnBlock 0)))))
   \<and> execCommand inertModel
        (exampleEditor (HeadingNode H2) 0 False ''ab'' (RangeSelection (caretIn (Key 4) 0)))
        (KeyBackspace \<lparr>shiftKey = False\<rparr>)
      = Inr (True, callModel inertModel (Selection_deleteCharacter True) (preventDefault
          (exampleEditor (HeadingNode H2) 0 False ''ab'' (RangeSelection (caretIn (Key 4) 0)))))
   \<and> \<not> isCollapsed (rangeFrom 0 1)
   \<and> execCommand inertModel
        (exampleEditor (HeadingNode H2) 2 False ''ab'' (RangeSelection (rangeFrom 0 1)))
        (KeyBackspace \<lparr>shiftKey = False\<rparr>)
      = Inr (True, callModel inertModel (Selection_deleteCharacter True) (preventDefault
          (exampleEditor (HeadingNode H2) 2 False ''ab'' (RangeSelection (rangeFrom 0 1)))))
   \<and> execCommand inertModel
        (exampleEditor (HeadingNode H2) 2 False ''ab'' (RangeSelection (caretIn (Key 4) 1)))
        (KeyBackspace \<lparr>shiftKey = False\<rparr>)
      = Inr (True, callModel inertModel (Selection_deleteCharacter True) (preventDefault
          (exampleEditor (HeadingNode H2) 2 False ''ab'' (RangeSelection (caretIn (Key 4) 1)))))"
proof -
  have sel: "getSelection (exampleEditor ty ind tab ''ab'' (RangeSelection r)) = RangeSelection r"
    for ty ind tab r
    by (simp add: exampleEditor_simps)
  have r1: "''keyBackspace'' \<in>
      set (commandListeners (exampleEditor ty ind tab ''ab'' (RangeSelection r)))"
    for ty ind tab r
    by (rule example_registered)
  have r2: "''outdentContent'' \<in>
      set (commandListeners (exampleEditor ty ind tab ''ab'' (RangeSelection r)))"
    for ty ind tab r
    by (rule example_registered)
  have r3: "''deleteCharacter'' \<in>
      set (commandListeners (exampleEditor ty ind tab ''ab'' (RangeSelection r)))"
    for ty ind tab r
    by (rule example_registered)
  have bt: "parentBlock (exampleNodes ty ind tab ''ab'') (anchor (caretIn c i))
      = Inr (Key 2,
          \<lparr>node_type = ty, parent = Some RootKey, children = [Key 3, Key 4], indent = ind,
           direction = Some RTL, textContent = ''ab'' @ ''z'', canInsertTab = tab\<rparr>)"
    if "c = Key 3 \<or> c = Key 4" for ty ind tab c i
    using that by (simp add: caretIn_def example_parentBlock_text)
  have be: "parentBlock (exampleNodes ty ind tab ''ab'') (anchor (caretOnBlock i))
      = Inr (Key 2,
          \<lparr>node_type = ty, parent = Some RootKey, children = [Key 3, Key 4], indent = ind,
           direction = Some RTL, textContent = ''ab'' @ ''z'', canInsertTab = tab\<rparr>)"
    for ty ind tab i
    by (simp add: caretOnBlock_def example_parentBlock_element)
  have s1: "atBlockStart (exampleNodes (HeadingNode H2) 2 False ''ab'') (anchor (caretIn (Key 3) 0))"
    using bt [of "Key 3" "HeadingNode H2" 2 False 0]
    by (simp add: atBlockStart_def) (simp add: caretIn_def)
  have s2: "atBlockStart (exampleNodes QuoteNode 1 False ''ab'') (anchor (caretOnBlock 0))"
    using be [of QuoteNode 1 False 0]
    by (simp add: atBlockStart_def) (simp add: caretOnBlock_def)
  have c: "isCollapsed (caretIn c i)" "isCollapsed (caretOnBlock i)"
    "offset (anchor (caretIn c i)) = i" "\<not> isCollapsed (rangeFrom 0 1)" for c i
    by (simp_all add: isCollapsed_def caretIn_def caretOnBlock_def rangeFrom_def)
  note inst = keyBackspace_dispatch [OF sel r1 r2 r3]
  show ?thesis
    using s1 s2 c
      bt [of "Key 3" "HeadingNode H2" 2 False 0] be [of QuoteNode 1 False 0]
      bt [of "Key 4" "HeadingNode H2" 0 False 0]
      inst [of "caretIn (Key 3) 0" "HeadingNode H2" 2 False "Key 2"
        "\<lparr>node_type = HeadingNode H2, parent = Some RootKey, children = [Key 3, Key 4],
          indent = 2, direction = Some RTL, textContent = ''ab'' @ ''z'', canInsertTab = False\<rparr>"
        inertModel "\<lparr>shiftKey = False\<rparr>"]
      inst [of "caretOnBlock 0" QuoteNode 1 False "Key 2"
        "\<lparr>node_type = QuoteNode, parent = Some RootKey, children = [Key 3, Key 4],
          indent = 1, direction = Some RTL, textContent = ''ab'' @ ''z'', canInsertTab = False\<rparr>"
        inertModel "\<lparr>shiftKey = False\<rparr>"]
      inst [of "caretIn (Key 4) 0" "HeadingNode H2" 0 False "Key 2"
        "\<lparr>node_type = HeadingNode H2, parent = Some RootKey, children = [Key 3, Key 4],
          indent = 0, direction = Some RTL, textContent = ''ab'' @ ''z'', canInsertTab = False\<rparr>"
        inertModel "\<lparr>shiftKey = False\<rparr>"]
      inst [of "rangeFrom 0 1" "HeadingNode H2" 2 False _ _ inertModel "\<lparr>shiftKey = False\<rparr>"]
      inst [of "caretIn (Key 4) 1" "HeadingNode H2" 2 False _ _ inertModel "\<lparr>shiftKey = False\<rparr>"]
    by (simp add: exampleEditor_simps)
qed

text \<open>
  C1, as the claim states it, fails, at two states.
  \<^item> The caret is collapsed at offset 0 of a block with indent 1 that can take a tab.
    The listener re-dispatches \<^verbatim>\<open>outdentContent\<close>, whose tab branch finds no character
    before offset 0: the dispatch returns \<^verbatim>\<open>true\<close>, the indent is still 1 and no
    character deletion was called, where the claim asks for one outdent.
  \<^item> The caret is collapsed at offset 0 of the second text node of a quote with indent
    2, after the text \<^verbatim>\<open>ab\<close> of the first: it is not at offset 0 of the block, and the
    claim asks for one backward character deletion and no indent change. The listener
    tests the offset inside the anchor's node, so it lowers the indent to 1 and calls
    no character deletion.
\<close>

theorem keyBackspace_dispatch_counterexample:
  "isCollapsed (caretAt 0)
   \<and> atBlockStart (exampleNodes (OtherNode ''code'') 1 True ''ab'') (anchor (caretAt 0))
   \<and> parentBlock
        (getNodeMap (exampleEditor (OtherNode ''code'') 1 True ''ab'' (RangeSelection (caretAt 0))))
        (anchor (caretAt 0))
      = Inr (Key 2,
          \<lparr>node_type = OtherNode ''code'', parent = Some RootKey, children = [Key 3, Key 4],
           indent = 1, direction = Some RTL, textContent = ''abz'', canInsertTab = True\<rparr>)
   \<and> execCommand inertModel
        (exampleEditor (OtherNode ''code'') 1 True ''ab'' (RangeSelection (caretAt 0)))
        (KeyBackspace \<lparr>shiftKey = False\<rparr>)
      = Inr (True, preventDefault
          (exampleEditor (OtherNode ''code'') 1 True ''ab'' (RangeSelection (caretAt 0))))
   \<and> getNodeMap (preventDefault
          (exampleEditor (OtherNode ''code'') 1 True ''ab'' (RangeSelection (caretAt 0))))
      = getNodeMap (exampleEditor (OtherNode ''code'') 1 True ''ab'' (RangeSelection (caretAt 0)))
   \<and> modelCalls (preventDefault
          (exampleEditor (OtherNode ''code'') 1 True ''ab'' (RangeSelection (caretAt 0)))) = []
   \<and> isCollapsed (caretIn (Key 4) 0)
   \<and> \<not> atBlockStart (exampleNodes QuoteNode 2 False ''ab'') (anchor (caretIn (Key 4) 0))
   \<and> textBeforeCaret (exampleNodes QuoteNode 2 False ''ab'') (anchor (caretIn (Key 4) 0)) = ''ab''
   \<and> execCommand inertModel
        (exampleEditor QuoteNode 2 False ''ab'' (RangeSelection (caretIn (Key 4) 0)))
        (KeyBackspace \<lparr>shiftKey = False\<rparr>)
      = Inr (True, setIndent (Key 2) 1 (preventDefault
          (exampleEditor QuoteNode 2 False ''ab'' (RangeSelection (caretIn (Key 4) 0)))))
   \<and> modelCalls (setIndent (Key 2) 1 (preventDefault
          (exampleEditor QuoteNode 2 False ''ab'' (RangeSelection (caretIn (Key 4) 0))))) = []
   \<and> map_option indent (getNodeMap (setIndent (Key 2) 1 (preventDefault
          (exampleEditor QuoteNode 2 False ''ab'' (RangeSelection (caretIn (Key 4) 0)))))
        (Key 2)) = Some 1"
proof -
  let ?ed = "exampleEditor (OtherNode ''code'') 1 True ''ab'' (RangeSelection (caretAt 0))"
  let ?e2 = "exampleEditor QuoteNode 2 False ''ab'' (RangeSelection (caretIn (Key 4) 0))"
  have c: "charAt ''ab'' (offset (anchor (caretAt 0)) - 1) = None"
    by (simp add: charAt_def caretAt_def)
  have out: "execCommand inertModel (preventDefault ?ed) OutdentContent =
               Inr (True, preventDefault ?ed)"
    using outdentContent_result [of "preventDefault ?ed" "caretAt 0" _ "Key 2" _ inertModel] c
    by (simp add: preventDefault_simps exampleEditor_simps richTextCommands_registered
        caretAt_def example_parentBlock example_anchorNode)
  have "listener inertModel ?ed (KeyBackspace \<lparr>shiftKey = False\<rparr>) =
          Inr (True, preventDefault ?ed)"
    using out
    by (simp add: listener.simps exampleEditor_simps isCollapsed_def caretAt_def
        example_parentBlock)
  then have x1: "execCommand inertModel ?ed (KeyBackspace \<lparr>shiftKey = False\<rparr>) =
          Inr (True, preventDefault ?ed)"
    by (intro execCommand_handled) (simp_all add: example_registered)
  have out2: "execCommand inertModel (preventDefault ?e2) OutdentContent =
               Inr (True, setIndent (Key 2) 1 (preventDefault ?e2))"
    using outdentContent_result [of "preventDefault ?e2" "caretIn (Key 4) 0" _ "Key 2" _ inertModel]
    by (simp add: preventDefault_simps exampleEditor_simps richTextCommands_registered
        caretIn_def example_parentBlock_text example_getNode)
  have "listener inertModel ?e2 (KeyBackspace \<lparr>shiftKey = False\<rparr>) =
          Inr (True, setIndent (Key 2) 1 (preventDefault ?e2))"
    using out2
    by (simp add: listener.simps exampleEditor_simps isCollapsed_def caretIn_def
        example_parentBlock_text)
  then have x2: "execCommand inertModel ?e2 (KeyBackspace \<lparr>shiftKey = False\<rparr>) =
          Inr (True, setIndent (Key 2) 1 (preventDefault ?e2))"
    by (intro execCommand_handled) (simp_all add: example_registered)
  have s1: "atBlockStart (exampleNodes (OtherNode ''code'') 1 True ''ab'') (anchor (caretAt 0))"
    by (simp add: atBlockStart_def caretAt_def example_parentBlock)
  have s2: "\<not> atBlockStart (exampleNodes QuoteNode 2 False ''ab'') (anchor (caretIn (Key 4) 0))"
    by (simp add: atBlockStart_def caretIn_def example_parentBlock_text)
  have t2: "textBeforeCaret (exampleNodes QuoteNode 2 False ''ab'') (anchor (caretIn (Key 4) 0))
      = ''ab''"
    by (simp add: textBeforeCaret_def caretIn_def example_parentBlock_text nodeText_def
        exampleNodes_simps)
  show ?thesis
    using x1 x2 s1 s2 t2
    by (simp add: isCollapsed_def caretAt_def caretIn_def exampleEditor_simps
        example_parentBlock preventDefault_simps setIndent_simps updateNode_def
        exampleNodes_simps)
qed

subsection \<open>Preventing the default commutes with the indent and outdent dispatch\<close>

lemma preventDefault_callModel:
  "callModel M x (preventDefault ed) = preventDefault (callModel M x ed)"
  by (simp add: callModel_def preventDefault_def)

lemma preventDefault_setIndent:
  "setIndent k v (preventDefault ed) = preventDefault (setIndent k v ed)"
  by (simp add: setIndent_def setNodeMap_def getNodeMap_def preventDefault_def)

lemma listener_preventDefault_leaf:
  assumes "redispatchDepth c = 0"
  shows "listener M (preventDefault ed) c =
           map_sum id (map_prod id preventDefault) (listener M ed c)"
  using assms
  by (cases c)
    (auto simp: listener.simps preventDefault_simps preventDefault_callModel
      split: selection.splits text_payload.splits option.splits)

lemma triggerCommandListeners_preventDefault:
  assumes "\<And>ed. listener M (preventDefault ed) c =
             map_sum id (map_prod id preventDefault) (listener M ed c)"
  shows "triggerCommandListeners M ns (preventDefault ed) c =
           map_sum id (map_prod id preventDefault) (triggerCommandListeners M ns ed c)"
proof (induction ns arbitrary: ed)
  case Nil
  show ?case by (simp add: triggerCommandListeners.simps)
next
  case (Cons n ns)
  show ?case
  proof (cases "listener M ed c")
    case (Inl e)
    then show ?thesis by (simp add: triggerCommandListeners.simps assms)
  next
    case (Inr r)
    obtain handled ed' where r: "r = (handled, ed')" by (cases r)
    show ?thesis
      using Inr r Cons.IH [of ed'] by (simp add: triggerCommandListeners.simps assms)
  qed
qed

lemma execCommand_preventDefault:
  assumes "\<And>ed. listener M (preventDefault ed) c =
             map_sum id (map_prod id preventDefault) (listener M ed c)"
  shows "execCommand M (preventDefault ed) c =
           map_sum id (map_prod id preventDefault) (execCommand M ed c)"
  using triggerCommandListeners_preventDefault [OF assms]
  by (simp add: execCommand.simps preventDefault_simps)

lemma listener_preventDefault_indent:
  "listener M (preventDefault ed) IndentContent =
     map_sum id (map_prod id preventDefault) (listener M ed IndentContent)"
proof -
  have inner: "execCommand M (preventDefault ed) (InsertText (TextString [TAB])) =
      map_sum id (map_prod id preventDefault) (execCommand M ed (InsertText (TextString [TAB])))"
    by (rule execCommand_preventDefault) (simp add: listener_preventDefault_leaf)
  show ?thesis
    by (auto simp: listener.simps preventDefault_simps preventDefault_setIndent inner
        split: selection.splits sum.splits)
qed

lemma listener_preventDefault_outdent:
  "listener M (preventDefault ed) OutdentContent =
     map_sum id (map_prod id preventDefault) (listener M ed OutdentContent)"
proof -
  have inner: "execCommand M (preventDefault ed) (DeleteCharacter True) =
      map_sum id (map_prod id preventDefault) (execCommand M ed (DeleteCharacter True))"
    by (rule execCommand_preventDefault) (simp add: listener_preventDefault_leaf)
  show ?thesis
    by (auto simp: listener.simps preventDefault_simps preventDefault_setIndent inner
        split: selection.splits sum.splits)
qed

lemma execCommand_preventDefault_dent:
  assumes "c = IndentContent \<or> c = OutdentContent"
  shows "execCommand M (preventDefault ed) c =
           map_sum id (map_prod id preventDefault) (execCommand M ed c)"
  using assms listener_preventDefault_indent listener_preventDefault_outdent
  by (auto intro!: execCommand_preventDefault)

lemma listener_dent_handled:
  assumes "getSelection ed = RangeSelection sel"
    and "c = IndentContent \<or> c = OutdentContent"
  shows "listener M ed c \<noteq> Inr (False, ed')"
  using assms
  by (auto simp: listener.simps split: sum.splits if_splits)

lemma triggerCommandListeners_not_declined:
  assumes "\<And>ed'. listener M ed c \<noteq> Inr (False, ed')"
    and "triggerCommandListeners M ns ed c = Inr (False, ed')"
  shows "ed' = ed"
  using assms(2)
proof (cases ns)
  case Nil
  with assms(2) show ?thesis by (simp add: triggerCommandListeners.simps)
next
  case (Cons n ns')
  with assms show ?thesis
    by (fastforce simp: triggerCommandListeners.simps split: sum.splits if_splits)
qed

lemma execCommand_dent_declined:
  assumes "getSelection ed = RangeSelection sel"
    and "c = IndentContent \<or> c = OutdentContent"
    and "execCommand M ed c = Inr (False, ed')"
  shows "ed' = ed"
  using triggerCommandListeners_not_declined [of M ed c] listener_dent_handled [OF assms(1,2)]
    assms(3)
  by (auto simp: execCommand.simps)

lemma triggerCommandListeners_keyTab_declined:
  assumes "getSelection ed = RangeSelection sel"
    and "execCommand M ed (if shiftKey ev then OutdentContent else IndentContent) = Inr (False, ed)"
  shows "triggerCommandListeners M ns (preventDefault ed) (KeyTab ev) =
           Inr (False, preventDefault ed)"
proof -
  have "listener M (preventDefault ed) (KeyTab ev) = Inr (False, preventDefault ed)"
    using assms
      execCommand_preventDefault_dent [of "if shiftKey ev then OutdentContent else IndentContent"
        M "preventDefault ed"]
      execCommand_preventDefault_dent [of "if shiftKey ev then OutdentContent else IndentContent"
        M ed]
    by (simp add: listener.simps preventDefault_simps)
  then show ?thesis by (rule triggerCommandListeners_declined)
qed

lemma keyTab_result:
  assumes "getSelection ed = RangeSelection sel"
    and "''keyTab'' \<in> set (commandListeners ed)"
  shows "execCommand M ed (KeyTab ev) =
           map_sum id (map_prod id preventDefault)
             (execCommand M ed (if shiftKey ev then OutdentContent else IndentContent))"
proof -
  let ?c = "if shiftKey ev then OutdentContent else IndentContent"
  have c: "?c = IndentContent \<or> ?c = OutdentContent" by simp
  obtain ns where ns: "filter (\<lambda>m. m = ''keyTab'') (commandListeners ed) = ''keyTab'' # ns"
    using filter_registered [OF assms(2)] by blast
  have l: "listener M ed (KeyTab ev) =
             map_sum id (map_prod id preventDefault) (execCommand M ed ?c)"
    using assms(1) execCommand_preventDefault_dent [OF c, of M ed]
    by (simp add: listener.simps)
  show ?thesis
  proof (cases "execCommand M ed ?c")
    case (Inl e)
    then show ?thesis
      using l ns by (simp add: execCommand.simps [of M ed "KeyTab ev"] triggerCommandListeners.simps)
  next
    case (Inr r)
    obtain handled ed' where r: "r = (handled, ed')" by (cases r)
    show ?thesis
    proof (cases handled)
      case True
      then show ?thesis
        using l ns Inr r
        by (simp add: execCommand.simps [of M ed "KeyTab ev"] triggerCommandListeners.simps)
    next
      case False
      then have same: "ed' = ed"
        using execCommand_dent_declined [OF assms(1) c, of M ed'] Inr r by simp
      then have "triggerCommandListeners M ns (preventDefault ed) (KeyTab ev) =
                   Inr (False, preventDefault ed)"
        using triggerCommandListeners_keyTab_declined [OF assms(1), of M ev ns] Inr r False
        by simp
      then show ?thesis
        using l ns Inr r False same
        by (simp add: execCommand.simps [of M ed "KeyTab ev"] triggerCommandListeners.simps)
    qed
  qed
qed

text \<open>
  C5. \<^verbatim>\<open>keyTab\<close> with a Range selection gives the result of a direct dispatch of
  \<^verbatim>\<open>outdentContent\<close> when shift is held and of \<^verbatim>\<open>indentContent\<close> when it is not, with
  the event's default prevented: the same error or the same handled flag, and the same
  editor but for the \<open>defaultPrevented\<close> flag of the event. In particular the handled flag,
  the editor state (document and selection) and the calls made into the external model
  are identical.
\<close>

theorem keyTab_dispatch:
  assumes "getSelection ed = RangeSelection sel"
    and "''keyTab'' \<in> set (commandListeners ed)"
  shows "execCommand M ed (KeyTab ev) =
           map_sum id (map_prod id preventDefault)
             (execCommand M ed (if shiftKey ev then OutdentContent else IndentContent))
         \<and> map_sum id (\<lambda>(handled, e). (handled, editorState e, modelCalls e))
             (execCommand M ed (KeyTab ev)) =
           map_sum id (\<lambda>(handled, e). (handled, editorState e, modelCalls e))
             (execCommand M ed (if shiftKey ev then OutdentContent else IndentContent))"
proof -
  let ?c = "if shiftKey ev then OutdentContent else IndentContent"
  have eq: "execCommand M ed (KeyTab ev) =
              map_sum id (map_prod id preventDefault) (execCommand M ed ?c)"
    by (rule keyTab_result [OF assms])
  have "map_sum id (\<lambda>(handled, e). (handled, editorState e, modelCalls e))
          (map_sum id (map_prod id preventDefault) r) =
        map_sum id (\<lambda>(handled, e). (handled, editorState e, modelCalls e)) r"
    for r :: result
    by (cases r) (auto simp: preventDefault_def)
  with eq show ?thesis by simp
qed

theorem keyTab_dispatch_witness:
  "execCommand inertModel
      (exampleEditor QuoteNode 2 False ''ab'' (RangeSelection (caretAt 1)))
      (KeyTab \<lparr>shiftKey = True\<rparr>)
    = map_sum id (map_prod id preventDefault)
        (execCommand inertModel
           (exampleEditor QuoteNode 2 False ''ab'' (RangeSelection (caretAt 1))) OutdentContent)
   \<and> execCommand inertModel
      (exampleEditor QuoteNode 2 False ''ab'' (RangeSelection (caretAt 1)))
      (KeyTab \<lparr>shiftKey = False\<rparr>)
    = map_sum id (map_prod id preventDefault)
        (execCommand inertModel
           (exampleEditor QuoteNode 2 False ''ab'' (RangeSelection (caretAt 1))) IndentContent)
   \<and> getSelection (exampleEditor QuoteNode 2 False ''ab'' (RangeSelection (caretAt 1)))
      = RangeSelection (caretAt 1)
   \<and> ''keyTab'' \<in> set (commandListeners
        (exampleEditor QuoteNode 2 False ''ab'' (RangeSelection (caretAt 1))))"
proof -
  let ?ed = "exampleEditor QuoteNode 2 False ''ab'' (RangeSelection (caretAt 1))"
  have h1: "getSelection ?ed = RangeSelection (caretAt 1)"
    by (simp add: exampleEditor_simps)
  have h2: "''keyTab'' \<in> set (commandListeners ?ed)"
    by (simp add: exampleEditor_simps richTextCommands_registered)
  show ?thesis
    using h1 h2 keyTab_dispatch [OF h1 h2, of inertModel "\<lparr>shiftKey = True\<rparr>"]
      keyTab_dispatch [OF h1 h2, of inertModel "\<lparr>shiftKey = False\<rparr>"]
    by simp
qed

section \<open>Properties of the Quote and Heading nodes\<close>

lemma insertAfterKey_split:
  "x \<in> set xs \<Longrightarrow>
     \<exists>ys zs. xs = ys @ x # zs \<and> x \<notin> set ys \<and> insertAfterKey x y xs = ys @ x # y # zs"
proof (induction xs)
  case Nil
  then show ?case by simp
next
  case (Cons z xs)
  show ?case
  proof (cases "z = x")
    case True
    then have "z # xs = [] @ x # xs \<and> x \<notin> set [] \<and> insertAfterKey x y (z # xs) = [] @ x # y # xs"
      by simp
    then show ?thesis by blast
  next
    case False
    with Cons obtain ys zs where
      "xs = ys @ x # zs" "x \<notin> set ys" "insertAfterKey x y xs = ys @ x # y # zs"
      by auto
    with False have "z # xs = (z # ys) @ x # zs \<and> x \<notin> set (z # ys)
        \<and> insertAfterKey x y (z # xs) = (z # ys) @ x # y # zs"
      by simp
    then show ?thesis by blast
  qed
qed

lemma replaceFirst_split:
  "x \<in> set xs \<Longrightarrow>
     \<exists>ys zs. xs = ys @ x # zs \<and> x \<notin> set ys \<and> replaceFirst x y xs = ys @ y # zs"
proof (induction xs)
  case Nil
  then show ?case by simp
next
  case (Cons z xs)
  show ?case
  proof (cases "z = x")
    case True
    then have "z # xs = [] @ x # xs \<and> x \<notin> set [] \<and> replaceFirst x y (z # xs) = [] @ y # xs"
      by simp
    then show ?thesis by blast
  next
    case False
    with Cons obtain ys zs where
      "xs = ys @ x # zs" "x \<notin> set ys" "replaceFirst x y xs = ys @ y # zs"
      by auto
    with False have "z # xs = (z # ys) @ x # zs \<and> x \<notin> set (z # ys)
        \<and> replaceFirst x y (z # xs) = (z # ys) @ y # zs"
      by simp
    then show ?thesis by blast
  qed
qed

lemma HeadingNode_insertNewAfter_eq:
  "HeadingNode_insertNewAfter ed this = QuoteNode_insertNewAfter ed this"
  by (simp add: HeadingNode_insertNewAfter_def QuoteNode_insertNewAfter_def)

lemma HeadingNode_collapseAtStart_eq:
  "HeadingNode_collapseAtStart ed this = QuoteNode_collapseAtStart ed this"
  by (simp add: HeadingNode_collapseAtStart_def QuoteNode_collapseAtStart_def)

lemma insertNewAfter_result:
  assumes "getNodeMap ed this = Some n"
    and "parent n = Some q"
    and "getNodeMap ed q = Some qn"
    and "this \<in> set (children qn)"
    and "getNodeMap ed (Key (keyCounter ed)) = None"
  shows "QuoteNode_insertNewAfter ed this =
     Inr (Key (keyCounter ed),
          ed\<lparr>editorState := (editorState ed)
                \<lparr>nodeMap := (getNodeMap ed)
                   (Key (keyCounter ed) \<mapsto>
                      emptyParagraph\<lparr>parent := Some q, direction := direction n\<rparr>,
                    q \<mapsto> qn\<lparr>children := insertAfterKey this (Key (keyCounter ed)) (children qn)\<rparr>)\<rparr>,
              keyCounter := Suc (keyCounter ed)\<rparr>)"
proof -
  have ne: "Key (keyCounter ed) \<noteq> this" "Key (keyCounter ed) \<noteq> q"
    using assms by auto
  show ?thesis
    using assms ne
    by (auto simp: QuoteNode_insertNewAfter_def createParagraphNode_def getNodeMap_def
        setNodeMap_def getNode_def setDirection_def insertAfter_def removeFromParent_def
        updateNode_def getParentOrThrow_def emptyParagraph_def fun_upd_twist)
qed

text \<open>
  C8. \<^verbatim>\<open>insertNewAfter\<close> on a Quote or Heading node that is in the tree (it has a parent
  that lists it) and with an unused key at hand: the method returns the key of a new
  node; that node is a default Paragraph (never a Heading or Quote) which carries the
  direction of the source node and has the source's parent as its parent; in the parent's
  child list the new key stands immediately after the source node's key; and nothing
  else in the node map is changed, so exactly one node is inserted.
\<close>

theorem insertNewAfter_inserts_paragraph:
  assumes "getNodeMap ed this = Some n"
    and "parent n = Some q"
    and "getNodeMap ed q = Some qn"
    and "this \<in> set (children qn)"
    and "getNodeMap ed (Key (keyCounter ed)) = None"
  shows "(node_type n = QuoteNode \<longrightarrow>
            QuoteNode_insertNewAfter ed this =
              Inr (Key (keyCounter ed),
                ed\<lparr>editorState := (editorState ed)
                      \<lparr>nodeMap := (getNodeMap ed)
                         (Key (keyCounter ed) \<mapsto>
                            emptyParagraph\<lparr>parent := Some q, direction := direction n\<rparr>,
                          q \<mapsto> qn\<lparr>children :=
                                 insertAfterKey this (Key (keyCounter ed)) (children qn)\<rparr>)\<rparr>,
                    keyCounter := Suc (keyCounter ed)\<rparr>))
       \<and> (\<forall>tag. node_type n = HeadingNode tag \<longrightarrow>
            HeadingNode_insertNewAfter ed this =
              Inr (Key (keyCounter ed),
                ed\<lparr>editorState := (editorState ed)
                      \<lparr>nodeMap := (getNodeMap ed)
                         (Key (keyCounter ed) \<mapsto>
                            emptyParagraph\<lparr>parent := Some q, direction := direction n\<rparr>,
                          q \<mapsto> qn\<lparr>children :=
                                 insertAfterKey this (Key (keyCounter ed)) (children qn)\<rparr>)\<rparr>,
                    keyCounter := Suc (keyCounter ed)\<rparr>))
       \<and> node_type (emptyParagraph\<lparr>parent := Some q, direction := direction n\<rparr>) = ParagraphNode
       \<and> direction (emptyParagraph\<lparr>parent := Some q, direction := direction n\<rparr>) = direction n
       \<and> (\<exists>ys zs. children qn = ys @ this # zs \<and> this \<notin> set ys
             \<and> insertAfterKey this (Key (keyCounter ed)) (children qn) =
                 ys @ this # Key (keyCounter ed) # zs)"
  using insertNewAfter_result [OF assms] insertAfterKey_split [OF assms(4)]
  by (simp add: HeadingNode_insertNewAfter_eq emptyParagraph_def)

theorem insertNewAfter_inserts_paragraph_witness:
  "getNodeMap (exampleEditor QuoteNode 0 False ''ab'' NoSelection) (Key 6) = None
   \<and> QuoteNode_insertNewAfter (exampleEditor QuoteNode 0 False ''ab'' NoSelection) (Key 2) =
       Inr (Key 6,
         (exampleEditor QuoteNode 0 False ''ab'' NoSelection)
           \<lparr>editorState :=
              \<lparr>nodeMap = (exampleNodes QuoteNode 0 False ''ab'')
                 (Key 6 \<mapsto> emptyParagraph\<lparr>parent := Some RootKey, direction := Some RTL\<rparr>,
                  RootKey \<mapsto>
                    \<lparr>node_type = RootNode, parent = None, children = [Key 2, Key 6, Key 5],
                     indent = 0, direction = None, textContent = ''abz'',
                     canInsertTab = False\<rparr>),
               selection = NoSelection\<rparr>,
            keyCounter := 7\<rparr>)
   \<and> HeadingNode_insertNewAfter (exampleEditor (HeadingNode H3) 0 False ''ab'' NoSelection) (Key 2) =
       Inr (Key 6,
         (exampleEditor (HeadingNode H3) 0 False ''ab'' NoSelection)
           \<lparr>editorState :=
              \<lparr>nodeMap = (exampleNodes (HeadingNode H3) 0 False ''ab'')
                 (Key 6 \<mapsto> emptyParagraph\<lparr>parent := Some RootKey, direction := Some RTL\<rparr>,
                  RootKey \<mapsto>
                    \<lparr>node_type = RootNode, parent = None, children = [Key 2, Key 6, Key 5],
                     indent = 0, direction = None, textContent = ''abz'',
                     canInsertTab = False\<rparr>),
               selection = NoSelection\<rparr>,
            keyCounter := 7\<rparr>)"
proof -
  have h1: "getNodeMap (exampleEditor ty 0 False ''ab'' NoSelection) (Key 2) =
      Some \<lparr>node_type = ty, parent = Some RootKey, children = [Key 3, Key 4], indent = 0,
           direction = Some RTL, textContent = ''ab'' @ ''z'', canInsertTab = False\<rparr>" for ty
    by (simp add: exampleEditor_simps exampleNodes_simps)
  have h2: "parent \<lparr>node_type = ty, parent = Some RootKey, children = [Key 3, Key 4], indent = 0,
           direction = Some RTL, textContent = ''ab'' @ ''z'', canInsertTab = False\<rparr>
           = Some RootKey" for ty
    by simp
  have h3: "getNodeMap (exampleEditor ty 0 False ''ab'' NoSelection) RootKey =
      Some \<lparr>node_type = RootNode, parent = None, children = [Key 2, Key 5], indent = 0,
           direction = None, textContent = ''ab'' @ ''z'', canInsertTab = False\<rparr>" for ty
    by (simp add: exampleEditor_simps exampleNodes_simps)
  have h4: "Key 2 \<in> set (children
      \<lparr>node_type = RootNode, parent = None, children = [Key 2, Key 5], indent = 0,
           direction = None, textContent = ''ab'' @ ''z'', canInsertTab = False\<rparr>)"
    by simp
  have h5: "getNodeMap (exampleEditor ty 0 False ''ab'' NoSelection)
      (Key (keyCounter (exampleEditor ty 0 False ''ab'' NoSelection))) = None" for ty
    by (simp add: exampleEditor_simps exampleNodes_simps)
  show ?thesis
    using insertNewAfter_inserts_paragraph [OF h1 h2 h3 h4 h5, of QuoteNode]
      insertNewAfter_inserts_paragraph [OF h1 h2 h3 h4 h5, of "HeadingNode H3"]
    by (simp add: exampleEditor_simps exampleNodes_simps)
      (simp add: exampleEditor_def)
qed

subsection \<open>collapseAtStart\<close>

lemma fold_remove1_prefix: "fold remove1 cs (cs @ ys) = ys"
  by (induction cs) simp_all

lemma append_child_step:
  assumes "nm p = Some pn" and "nm this = Some hn" and "nm c = Some cn"
    and "parent cn = Some this" and "p \<noteq> this" and "c \<noteq> p" and "c \<noteq> this"
  shows "append_child p c nm =
           nm(this \<mapsto> hn\<lparr>children := remove1 c (children hn)\<rparr>,
              c \<mapsto> cn\<lparr>parent := Some p\<rparr>,
              p \<mapsto> pn\<lparr>children := children pn @ [c]\<rparr>)"
  using assms by (simp add: append_child_def removeFromParent_def updateNode_def)

lemma fold_append_child:
  assumes "nm p = Some pn" and "nm this = Some hn" and "p \<noteq> this"
    and "p \<notin> set cs" and "this \<notin> set cs" and "distinct cs"
    and "\<forall>c\<in>set cs. \<exists>cn. nm c = Some cn \<and> parent cn = Some this"
  shows "fold (append_child p) cs nm =
           (\<lambda>k. if k = p then Some (pn\<lparr>children := children pn @ cs\<rparr>)
                else if k = this then Some (hn\<lparr>children := fold remove1 cs (children hn)\<rparr>)
                else if k \<in> set cs then map_option (\<lambda>n. n\<lparr>parent := Some p\<rparr>) (nm k)
                else nm k)"
  using assms
proof (induction cs arbitrary: nm pn hn)
  case Nil
  then show ?case by auto
next
  case (Cons c cs)
  from Cons.prems obtain cn where cn: "nm c = Some cn" "parent cn = Some this"
    by auto
  have ne: "c \<noteq> p" "c \<noteq> this" "c \<notin> set cs"
    using Cons.prems by auto
  let ?nm1 = "nm(this \<mapsto> hn\<lparr>children := remove1 c (children hn)\<rparr>,
              c \<mapsto> cn\<lparr>parent := Some p\<rparr>,
              p \<mapsto> pn\<lparr>children := children pn @ [c]\<rparr>)"
  have step: "append_child p c nm = ?nm1"
    using Cons.prems(1,2,3) cn ne by (intro append_child_step) simp_all
  have later: "\<forall>c'\<in>set cs. \<exists>cn'. ?nm1 c' = Some cn' \<and> parent cn' = Some this"
    using Cons.prems ne by auto
  have "fold (append_child p) cs ?nm1 =
          (\<lambda>k. if k = p then Some ((pn\<lparr>children := children pn @ [c]\<rparr>)
                                  \<lparr>children := children (pn\<lparr>children := children pn @ [c]\<rparr>) @ cs\<rparr>)
                else if k = this
                then Some ((hn\<lparr>children := remove1 c (children hn)\<rparr>)
                        \<lparr>children := fold remove1 cs
                           (children (hn\<lparr>children := remove1 c (children hn)\<rparr>))\<rparr>)
                else if k \<in> set cs then map_option (\<lambda>n. n\<lparr>parent := Some p\<rparr>) (?nm1 k)
                else ?nm1 k)"
    using Cons.prems later ne
    by (intro Cons.IH) simp_all
  then show ?case
    using ne Cons.prems(3) cn by (auto simp: step)
qed

lemma collapseAtStart_result:
  assumes "getNodeMap ed this = Some n"
    and "parent n = Some q"
    and "getNodeMap ed q = Some qn"
    and "this \<in> set (children qn)"
    and "q \<noteq> this" and "q \<notin> set (children n)"
    and "distinct (children n)"
    and "\<forall>c\<in>set (children n). \<exists>cn. getNodeMap ed c = Some cn \<and> parent cn = Some this"
    and "getNodeMap ed (Key (keyCounter ed)) = None"
  shows "QuoteNode_collapseAtStart ed this =
     Inr (True,
          ed\<lparr>editorState := (editorState ed)
                \<lparr>nodeMap :=
                   (\<lambda>k. if k = Key (keyCounter ed)
                         then Some (emptyParagraph\<lparr>parent := Some q, children := children n\<rparr>)
                         else if k = this then Some (n\<lparr>parent := None, children := []\<rparr>)
                         else if k = q
                         then Some (qn\<lparr>children :=
                                replaceFirst this (Key (keyCounter ed)) (children qn)\<rparr>)
                         else if k \<in> set (children n)
                         then map_option (\<lambda>c. c\<lparr>parent := Some (Key (keyCounter ed))\<rparr>)
                                (getNodeMap ed k)
                         else getNodeMap ed k)\<rparr>,
              keyCounter := Suc (keyCounter ed)\<rparr>)"
proof -
  let ?p = "Key (keyCounter ed)"
  let ?nm0 = "(getNodeMap ed)(?p \<mapsto> emptyParagraph)"
  have ne: "?p \<noteq> this" "?p \<noteq> q" "?p \<notin> set (children n)" "this \<notin> set (children n)"
    using assms by auto
  have kids: "filter (\<lambda>c. ?nm0 c \<noteq> None) (children n) = children n"
    using assms(8) by (auto simp: filter_id_conv)
  have fold_eq: "fold (append_child ?p) (children n) ?nm0 =
           (\<lambda>k. if k = ?p then Some (emptyParagraph\<lparr>children := children emptyParagraph @ children n\<rparr>)
                else if k = this then Some (n\<lparr>children := fold remove1 (children n) (children n)\<rparr>)
                else if k \<in> set (children n)
                then map_option (\<lambda>n. n\<lparr>parent := Some ?p\<rparr>) (?nm0 k)
                else ?nm0 k)"
    using assms ne by (intro fold_append_child) auto
  have empty: "fold remove1 (children n) (children n) = []"
    using fold_remove1_prefix [of "children n" "[]"] by simp
  let ?F = "(\<lambda>k. if k = ?p then Some (emptyParagraph\<lparr>children := children n\<rparr>)
                else if k = this then Some (n\<lparr>children := []\<rparr>)
                else if k \<in> set (children n)
                then map_option (\<lambda>n. n\<lparr>parent := Some ?p\<rparr>) (getNodeMap ed k)
                else getNodeMap ed k)"
  have F: "fold (append_child ?p) (children n) ?nm0 = ?F"
    unfolding fold_eq empty using ne by (auto simp: emptyParagraph_def)
  let ?ed1 = "(setNodeMap ?nm0 ed)\<lparr>keyCounter := Suc (keyCounter ed)\<rparr>"
  have ed1: "getNodeMap ?ed1 = ?nm0"
    by (simp add: getNodeMap_def setNodeMap_def)
  have gc: "getChildren ?nm0 this = Inr (children n)"
    using assms(1) ne(1) kids by (simp add: getChildren_def)
  let ?R = "(\<lambda>k. if k = ?p
                   then Some (emptyParagraph\<lparr>parent := Some q, children := children n\<rparr>)
                   else if k = this then Some (n\<lparr>parent := None, children := []\<rparr>)
                   else if k = q
                   then Some (qn\<lparr>children := replaceFirst this ?p (children qn)\<rparr>)
                   else if k \<in> set (children n)
                   then map_option (\<lambda>c. c\<lparr>parent := Some ?p\<rparr>) (getNodeMap ed k)
                   else getNodeMap ed k)"
  have Ft: "?F this = Some (n\<lparr>children := []\<rparr>)"
    using ne by simp
  have Fq: "?F q = Some qn"
    using ne assms(3,5,6) by auto
  have rfp: "removeFromParent ?p ?F = ?F"
    by (simp add: removeFromParent_def emptyParagraph_def)
  have rep: "replace this ?p ?F = Inr ?R"
    unfolding replace_def getNode_def Ft rfp getParentOrThrow_def
    using assms(2,4,5) ne Fq
    by (auto simp: updateNode_def emptyParagraph_def)
  show ?thesis
    unfolding QuoteNode_collapseAtStart_def createParagraphNode_def
    by (simp add: ed1 gc F rep)
      (simp add: setNodeMap_def)
qed

text \<open>
  C7. \<^verbatim>\<open>collapseAtStart\<close> on a Quote or Heading node that is in a well-formed tree: the
  node has a parent that lists it once, the parent is neither the node itself nor one of
  its children, the node's child keys are distinct, each child is in the node map with
  its parent link pointing to the node, and the next key is unused. Then the method
  returns \<^verbatim>\<open>true\<close>; under the fresh key there is a default Paragraph whose child list is
  the node's child list, in the same order, and every such child has the Paragraph as
  its parent; the Paragraph stands in the parent's child list at the place of the node;
  and the node itself is out of the tree: it has no parent, no children, and its key is
  no longer in the parent's child list. All other nodes are as before.
\<close>

theorem collapseAtStart_moves_children:
  assumes "getNodeMap ed this = Some n"
    and "parent n = Some q"
    and "getNodeMap ed q = Some qn"
    and "this \<in> set (children qn)"
    and "distinct (children qn)"
    and "q \<noteq> this" and "q \<notin> set (children n)"
    and "distinct (children n)"
    and "\<forall>c\<in>set (children n). \<exists>cn. getNodeMap ed c = Some cn \<and> parent cn = Some this"
    and "getNodeMap ed (Key (keyCounter ed)) = None"
  shows "(node_type n = QuoteNode \<longrightarrow>
            QuoteNode_collapseAtStart ed this =
              Inr (True,
                ed\<lparr>editorState := (editorState ed)
                  \<lparr>nodeMap :=
                     (\<lambda>k. if k = Key (keyCounter ed)
                           then Some (emptyParagraph\<lparr>parent := Some q, children := children n\<rparr>)
                           else if k = this then Some (n\<lparr>parent := None, children := []\<rparr>)
                           else if k = q
                           then Some (qn\<lparr>children :=
                                  replaceFirst this (Key (keyCounter ed)) (children qn)\<rparr>)
                           else if k \<in> set (children n)
                           then map_option (\<lambda>c. c\<lparr>parent := Some (Key (keyCounter ed))\<rparr>)
                                  (getNodeMap ed k)
                           else getNodeMap ed k)\<rparr>,
                   keyCounter := Suc (keyCounter ed)\<rparr>))
       \<and> (\<forall>tag. node_type n = HeadingNode tag \<longrightarrow>
            HeadingNode_collapseAtStart ed this =
              Inr (True,
                ed\<lparr>editorState := (editorState ed)
                  \<lparr>nodeMap :=
                     (\<lambda>k. if k = Key (keyCounter ed)
                           then Some (emptyParagraph\<lparr>parent := Some q, children := children n\<rparr>)
                           else if k = this then Some (n\<lparr>parent := None, children := []\<rparr>)
                           else if k = q
                           then Some (qn\<lparr>children :=
                                  replaceFirst this (Key (keyCounter ed)) (children qn)\<rparr>)
                           else if k \<in> set (children n)
                           then map_option (\<lambda>c. c\<lparr>parent := Some (Key (keyCounter ed))\<rparr>)
                                  (getNodeMap ed k)
                           else getNodeMap ed k)\<rparr>,
                   keyCounter := Suc (keyCounter ed)\<rparr>))
       \<and> node_type (emptyParagraph\<lparr>parent := Some q, children := children n\<rparr>) = ParagraphNode
       \<and> children (emptyParagraph\<lparr>parent := Some q, children := children n\<rparr>) = children n
       \<and> (\<exists>ys zs. children qn = ys @ this # zs
             \<and> replaceFirst this (Key (keyCounter ed)) (children qn) =
                 ys @ Key (keyCounter ed) # zs
             \<and> this \<notin> set (ys @ Key (keyCounter ed) # zs))"
proof -
  have res: "QuoteNode_collapseAtStart ed this =
              Inr (True,
                ed\<lparr>editorState := (editorState ed)
                  \<lparr>nodeMap :=
                     (\<lambda>k. if k = Key (keyCounter ed)
                           then Some (emptyParagraph\<lparr>parent := Some q, children := children n\<rparr>)
                           else if k = this then Some (n\<lparr>parent := None, children := []\<rparr>)
                           else if k = q
                           then Some (qn\<lparr>children :=
                                  replaceFirst this (Key (keyCounter ed)) (children qn)\<rparr>)
                           else if k \<in> set (children n)
                           then map_option (\<lambda>c. c\<lparr>parent := Some (Key (keyCounter ed))\<rparr>)
                                  (getNodeMap ed k)
                           else getNodeMap ed k)\<rparr>,
                   keyCounter := Suc (keyCounter ed)\<rparr>)"
    using assms(1,2,3,4,6,7,8,9,10) by (rule collapseAtStart_result)
  obtain ys zs where split: "children qn = ys @ this # zs" "this \<notin> set ys"
      "replaceFirst this (Key (keyCounter ed)) (children qn) = ys @ Key (keyCounter ed) # zs"
    using replaceFirst_split [OF assms(4)] by blast
  have "this \<notin> set zs"
    using assms(5) split(1) by simp
  moreover have "Key (keyCounter ed) \<noteq> this"
    using assms(1,10) by auto
  ultimately have gone: "this \<notin> set (ys @ Key (keyCounter ed) # zs)"
    using split(2) by auto
  have place: "\<exists>ys zs. children qn = ys @ this # zs
             \<and> replaceFirst this (Key (keyCounter ed)) (children qn) =
                 ys @ Key (keyCounter ed) # zs
             \<and> this \<notin> set (ys @ Key (keyCounter ed) # zs)"
    using split(1,3) gone by blast
  show ?thesis
    using res place by (simp add: HeadingNode_collapseAtStart_eq emptyParagraph_def)
qed

theorem collapseAtStart_moves_children_witness:
  "getNodeMap (exampleEditor (HeadingNode H1) 0 False ''ab'' NoSelection) (Key 6) = None
   \<and> map_sum id
       (\<lambda>(handled, ed').
          (handled,
           map_option node_type (getNodeMap ed' (Key 6)),
           map_option children (getNodeMap ed' (Key 6)),
           map_option children (getNodeMap ed' RootKey),
           map_option parent (getNodeMap ed' (Key 2)),
           map_option parent (getNodeMap ed' (Key 3)),
           map_option parent (getNodeMap ed' (Key 4))))
       (HeadingNode_collapseAtStart (exampleEditor (HeadingNode H1) 0 False ''ab'' NoSelection)
          (Key 2))
     = Inr (True, Some ParagraphNode, Some [Key 3, Key 4], Some [Key 6, Key 5], Some None,
            Some (Some (Key 6)), Some (Some (Key 6)))
   \<and> map_sum id
       (\<lambda>(handled, ed'). (handled, map_option children (getNodeMap ed' (Key 6))))
       (QuoteNode_collapseAtStart (exampleEditor QuoteNode 0 False ''ab'' NoSelection) (Key 2))
     = Inr (True, Some [Key 3, Key 4])"
proof -
  let ?n = "\<lambda>ty. \<lparr>node_type = ty, parent = Some RootKey, children = [Key 3, Key 4], indent = 0,
           direction = Some RTL, textContent = ''ab'' @ ''z'', canInsertTab = False\<rparr>"
  let ?r = "\<lparr>node_type = RootNode, parent = None, children = [Key 2, Key 5], indent = 0,
           direction = None, textContent = ''ab'' @ ''z'', canInsertTab = False\<rparr>"
  have h1: "getNodeMap (exampleEditor ty 0 False ''ab'' NoSelection) (Key 2) = Some (?n ty)" for ty
    by (simp add: exampleEditor_simps exampleNodes_simps)
  have h2: "parent (?n ty) = Some RootKey" for ty
    by simp
  have h3: "getNodeMap (exampleEditor ty 0 False ''ab'' NoSelection) RootKey = Some ?r" for ty
    by (simp add: exampleEditor_simps exampleNodes_simps)
  have h4: "Key 2 \<in> set (children ?r)"
    by simp
  have h5: "distinct (children ?r)"
    by simp
  have h6: "RootKey \<noteq> Key 2"
    by simp
  have h7: "RootKey \<notin> set (children (?n ty))" for ty
    by simp
  have h8: "distinct (children (?n ty))" for ty
    by simp
  have h9: "\<forall>c\<in>set (children (?n ty)).
      \<exists>cn. getNodeMap (exampleEditor ty 0 False ''ab'' NoSelection) c = Some cn
         \<and> parent cn = Some (Key 2)" for ty
    by (simp add: exampleEditor_simps exampleNodes_simps)
  have h10: "getNodeMap (exampleEditor ty 0 False ''ab'' NoSelection)
      (Key (keyCounter (exampleEditor ty 0 False ''ab'' NoSelection))) = None" for ty
    by (simp add: exampleEditor_simps exampleNodes_simps)
  show ?thesis
    using collapseAtStart_moves_children [OF h1 h2 h3 h4 h5 h6 h7 h8 h9 h10, of "HeadingNode H1"]
      collapseAtStart_moves_children [OF h1 h2 h3 h4 h5 h6 h7 h8 h9 h10, of QuoteNode]
    by (simp add: exampleEditor_simps exampleNodes_simps)
      (simp add: getNodeMap_def exampleEditor_def exampleNodes_def emptyParagraph_def)
qed

section \<open>Properties of the initialisation\<close>

lemma fold_registerCommandListener:
  "fold registerCommandListener ns ed = ed\<lparr>commandListeners := commandListeners ed @ ns\<rparr>"
  by (induction ns arbitrary: ed) (simp_all add: registerCommandListener_def)

lemma initializeDefault_empty:
  assumes "getNodeMap ed RootKey = Some root" and "children root = []"
  shows "initializeDefault ed =
     Inr (ed\<lparr>editorState :=
               \<lparr>nodeMap = (getNodeMap ed)
                  (Key (keyCounter ed) \<mapsto> emptyParagraph\<lparr>parent := Some RootKey\<rparr>,
                   RootKey \<mapsto> root\<lparr>children := [Key (keyCounter ed)]\<rparr>),
                selection =
                  (if getSelection ed \<noteq> NoSelection
                      \<or> (activeElement ed \<noteq> None \<and> activeElement ed = rootElement ed)
                   then RangeSelection
                          \<lparr>anchor = \<lparr>key = Key (keyCounter ed), offset = 0, ptype = ElementPoint\<rparr>,
                           focus = \<lparr>key = Key (keyCounter ed), offset = 0, ptype = ElementPoint\<rparr>\<rparr>
                   else NoSelection)\<rparr>,
             keyCounter := Suc (keyCounter ed)\<rparr>)"
  using assms
  by (auto simp: initializeDefault_def getNode_def getFirstChild_def createParagraphNode_def
      getNodeMap_def setNodeMap_def getSelection_def append_child_def removeFromParent_def
      updateNode_def emptyParagraph_def select_def fun_upd_twist)

lemma initializeDefault_nonempty:
  assumes "getNodeMap ed RootKey = Some root" and "children root = c # cs"
    and "getNodeMap ed c = Some n"
  shows "initializeDefault ed = Inr ed"
  using assms by (simp add: initializeDefault_def getNode_def getFirstChild_def)

text \<open>
  C9. \<^verbatim>\<open>initializeEditor\<close> without an initial state (\<^verbatim>\<open>undefined\<close>), on a document with
  a root node. If the root has no children, then afterwards the root's child list is
  exactly the key of one new default Paragraph, whose parent is the root; the selection
  is the caret collapsed in that Paragraph at offset 0 if a selection existed or the
  DOM's active element was the editor's root element, and there is no selection
  otherwise. If the root's first child is a node of the tree, the editor state is what
  it was. In both cases one update tagged \<^verbatim>\<open>history-merge\<close> has run.
\<close>

theorem initializeEditor_default_document:
  assumes "getNodeMap ed RootKey = Some root"
  shows "(children root = [] \<longrightarrow>
            initializeEditor parseEditorState ed Undefined =
              Inr (ed\<lparr>editorState :=
                     \<lparr>nodeMap = (getNodeMap ed)
                        (Key (keyCounter ed) \<mapsto> emptyParagraph\<lparr>parent := Some RootKey\<rparr>,
                         RootKey \<mapsto> root\<lparr>children := [Key (keyCounter ed)]\<rparr>),
                      selection =
                        (if getSelection ed \<noteq> NoSelection
                            \<or> (activeElement ed \<noteq> None \<and> activeElement ed = rootElement ed)
                         then RangeSelection
                                \<lparr>anchor = \<lparr>key = Key (keyCounter ed), offset = 0,
                                           ptype = ElementPoint\<rparr>,
                                 focus = \<lparr>key = Key (keyCounter ed), offset = 0,
                                          ptype = ElementPoint\<rparr>\<rparr>
                         else NoSelection)\<rparr>,
                   keyCounter := Suc (keyCounter ed),
                   updateTags := updateTags ed @ [''history-merge'']\<rparr>))
       \<and> (\<forall>c cs cn. children root = c # cs \<and> getNodeMap ed c = Some cn \<longrightarrow>
            initializeEditor parseEditorState ed Undefined =
              Inr (ed\<lparr>updateTags := updateTags ed @ [''history-merge'']\<rparr>))
       \<and> isCollapsed \<lparr>anchor = \<lparr>key = Key (keyCounter ed), offset = 0, ptype = ElementPoint\<rparr>,
                       focus = \<lparr>key = Key (keyCounter ed), offset = 0, ptype = ElementPoint\<rparr>\<rparr>
       \<and> node_type (emptyParagraph\<lparr>parent := Some RootKey\<rparr>) = ParagraphNode"
proof (intro conjI impI allI)
  assume "children root = []"
  then show "initializeEditor parseEditorState ed Undefined =
              Inr (ed\<lparr>editorState :=
                     \<lparr>nodeMap = (getNodeMap ed)
                        (Key (keyCounter ed) \<mapsto> emptyParagraph\<lparr>parent := Some RootKey\<rparr>,
                         RootKey \<mapsto> root\<lparr>children := [Key (keyCounter ed)]\<rparr>),
                      selection =
                        (if getSelection ed \<noteq> NoSelection
                            \<or> (activeElement ed \<noteq> None \<and> activeElement ed = rootElement ed)
                         then RangeSelection
                                \<lparr>anchor = \<lparr>key = Key (keyCounter ed), offset = 0,
                                           ptype = ElementPoint\<rparr>,
                                 focus = \<lparr>key = Key (keyCounter ed), offset = 0,
                                          ptype = ElementPoint\<rparr>\<rparr>
                         else NoSelection)\<rparr>,
                   keyCounter := Suc (keyCounter ed),
                   updateTags := updateTags ed @ [''history-merge'']\<rparr>)"
    using initializeDefault_empty [OF assms]
    by (simp add: initializeEditor_def update_def)
next
  fix c cs cn
  assume "children root = c # cs \<and> getNodeMap ed c = Some cn"
  then show "initializeEditor parseEditorState ed Undefined =
              Inr (ed\<lparr>updateTags := updateTags ed @ [''history-merge'']\<rparr>)"
    using initializeDefault_nonempty [OF assms, of c cs cn]
    by (simp add: initializeEditor_def update_def)
next
  show "isCollapsed \<lparr>anchor = \<lparr>key = Key (keyCounter ed), offset = 0, ptype = ElementPoint\<rparr>,
                     focus = \<lparr>key = Key (keyCounter ed), offset = 0, ptype = ElementPoint\<rparr>\<rparr>"
    by (simp add: isCollapsed_def)
  show "node_type (emptyParagraph\<lparr>parent := Some RootKey\<rparr>) = ParagraphNode"
    by (simp add: emptyParagraph_def)
qed

lemma blankEditor_simps:
  "getNodeMap (blankEditor sel active) RootKey =
     Some \<lparr>node_type = RootNode, parent = None, children = [], indent = 0,
           direction = None, textContent = [], canInsertTab = False\<rparr>"
  "getSelection (blankEditor sel active) = sel"
  "activeElement (blankEditor sel active) = active"
  "rootElement (blankEditor sel active) = Some 0"
  "keyCounter (blankEditor sel active) = 2"
  "updateTags (blankEditor sel active) = []"
  "commandListeners (blankEditor sel active) = []"
  by (simp_all add: blankEditor_def getNodeMap_def getSelection_def)

theorem initializeEditor_default_document_witness:
  "map_sum id
     (\<lambda>ed'. (map_option children (getNodeMap ed' RootKey),
             map_option node_type (getNodeMap ed' (Key 2)),
             map_option parent (getNodeMap ed' (Key 2)),
             getSelection ed'))
     (initializeEditor blankParser (blankEditor NoSelection (Some 0)) Undefined)
   = Inr (Some [Key 2], Some ParagraphNode, Some (Some RootKey),
          RangeSelection \<lparr>anchor = \<lparr>key = Key 2, offset = 0, ptype = ElementPoint\<rparr>,
                          focus = \<lparr>key = Key 2, offset = 0, ptype = ElementPoint\<rparr>\<rparr>)
   \<and> map_sum id
     (\<lambda>ed'. (map_option children (getNodeMap ed' RootKey), getSelection ed'))
     (initializeEditor blankParser (blankEditor NoSelection None) Undefined)
   = Inr (Some [Key 2], NoSelection)
   \<and> map_sum id
     (\<lambda>ed'. (map_option children (getNodeMap ed' RootKey), getSelection ed'))
     (initializeEditor blankParser (blankEditor NoSelection (Some 7)) Undefined)
   = Inr (Some [Key 2], NoSelection)
   \<and> map_sum id editorState
     (initializeEditor blankParser
        (exampleEditor QuoteNode 0 False ''ab'' NoSelection) Undefined)
   = Inr (editorState (exampleEditor QuoteNode 0 False ''ab'' NoSelection))"
proof -
  have h1: "getNodeMap (blankEditor sel active) RootKey =
     Some \<lparr>node_type = RootNode, parent = None, children = [], indent = 0,
           direction = None, textContent = [], canInsertTab = False\<rparr>" for sel active
    by (simp add: blankEditor_simps)
  have h2: "getNodeMap (exampleEditor QuoteNode 0 False ''ab'' NoSelection) RootKey =
      Some \<lparr>node_type = RootNode, parent = None, children = [Key 2, Key 5], indent = 0,
           direction = None, textContent = ''ab'' @ ''z'', canInsertTab = False\<rparr>"
    by (simp add: exampleEditor_simps exampleNodes_simps)
  have h3: "getNodeMap (exampleEditor QuoteNode 0 False ''ab'' NoSelection) (Key 2) =
      Some \<lparr>node_type = QuoteNode, parent = Some RootKey, children = [Key 3, Key 4], indent = 0,
           direction = Some RTL, textContent = ''ab'' @ ''z'', canInsertTab = False\<rparr>"
    by (simp add: exampleEditor_simps exampleNodes_simps)
  show ?thesis
    using h3
      initializeEditor_default_document [OF h1, of blankParser NoSelection "Some 0"]
      initializeEditor_default_document [OF h1, of blankParser NoSelection None]
      initializeEditor_default_document [OF h1, of blankParser NoSelection "Some 7"]
      initializeEditor_default_document [OF h2, of blankParser]
    by (simp add: blankEditor_simps)
      (simp add: getNodeMap_def getSelection_def emptyParagraph_def)
qed

text \<open>
  C10. \<^verbatim>\<open>registerRichText\<close> with \<^verbatim>\<open>null\<close> as initial state registers the listeners
  and does nothing else: the editor state is what it was and no update has run. With
  no initial state (\<^verbatim>\<open>undefined\<close>) and a root without children, the same listeners are
  registered, one update has run, and the editor state has changed: the root now holds
  one child.
\<close>

theorem registerRichText_null_skips_initialisation:
  "registerRichText parseEditorState ed Null =
     Inr (ed\<lparr>commandListeners := commandListeners ed @ richTextCommands\<rparr>)
   \<and> editorState (ed\<lparr>commandListeners := commandListeners ed @ richTextCommands\<rparr>) =
       editorState ed
   \<and> updateTags (ed\<lparr>commandListeners := commandListeners ed @ richTextCommands\<rparr>) =
       updateTags ed
   \<and> (getNodeMap ed RootKey = Some root \<and> children root = [] \<longrightarrow>
        (\<exists>ed'. registerRichText parseEditorState ed Undefined = Inr ed'
           \<and> commandListeners ed' = commandListeners ed @ richTextCommands
           \<and> updateTags ed' = updateTags ed @ [''history-merge'']
           \<and> map_option children (getNodeMap ed' RootKey) = Some [Key (keyCounter ed)]
           \<and> editorState ed' \<noteq> editorState ed))"
proof (intro conjI impI)
  let ?reg = "ed\<lparr>commandListeners := commandListeners ed @ richTextCommands\<rparr>"
  show "registerRichText parseEditorState ed Null = Inr ?reg"
    by (simp add: registerRichText_def fold_registerCommandListener initializeEditor_def)
  show "editorState ?reg = editorState ed"
    by simp
  show "updateTags ?reg = updateTags ed"
    by simp
  assume empty: "getNodeMap ed RootKey = Some root \<and> children root = []"
  then have root: "getNodeMap ?reg RootKey = Some root"
    by (simp add: getNodeMap_def)
  let ?ed' = "?reg\<lparr>editorState :=
               \<lparr>nodeMap = (getNodeMap ?reg)
                  (Key (keyCounter ?reg) \<mapsto> emptyParagraph\<lparr>parent := Some RootKey\<rparr>,
                   RootKey \<mapsto> root\<lparr>children := [Key (keyCounter ?reg)]\<rparr>),
                selection =
                  (if getSelection ?reg \<noteq> NoSelection
                      \<or> (activeElement ?reg \<noteq> None \<and> activeElement ?reg = rootElement ?reg)
                   then RangeSelection
                          \<lparr>anchor = \<lparr>key = Key (keyCounter ?reg), offset = 0, ptype = ElementPoint\<rparr>,
                           focus = \<lparr>key = Key (keyCounter ?reg), offset = 0, ptype = ElementPoint\<rparr>\<rparr>
                   else NoSelection)\<rparr>,
             keyCounter := Suc (keyCounter ?reg),
             updateTags := updateTags ?reg @ [''history-merge'']\<rparr>"
  have undef: "registerRichText parseEditorState ed Undefined = Inr ?ed'"
    using initializeDefault_empty [OF root] empty
    by (simp add: registerRichText_def fold_registerCommandListener initializeEditor_def
        update_def)
  have kids: "map_option children (getNodeMap ?ed' RootKey) = Some [Key (keyCounter ed)]"
    by (simp add: getNodeMap_def)
  have "nodeMap (editorState ?ed') RootKey \<noteq> nodeMap (editorState ed) RootKey"
    using empty by (auto simp: getNodeMap_def dest: arg_cong [where f = children])
  then have changed: "editorState ?ed' \<noteq> editorState ed"
    by metis
  have "commandListeners ?ed' = commandListeners ed @ richTextCommands
      \<and> updateTags ?ed' = updateTags ed @ [''history-merge'']"
    by simp
  with undef kids changed
  show "\<exists>ed'. registerRichText parseEditorState ed Undefined = Inr ed'
             \<and> commandListeners ed' = commandListeners ed @ richTextCommands
             \<and> updateTags ed' = updateTags ed @ [''history-merge'']
             \<and> map_option children (getNodeMap ed' RootKey) = Some [Key (keyCounter ed)]
             \<and> editorState ed' \<noteq> editorState ed"
    by blast
qed

theorem registerRichText_null_skips_initialisation_witness:
  "registerRichText blankParser (blankEditor NoSelection (Some 0)) Null =
     Inr ((blankEditor NoSelection (Some 0))\<lparr>commandListeners := richTextCommands\<rparr>)
   \<and> getNodeMap (blankEditor NoSelection (Some 0)) RootKey =
       Some \<lparr>node_type = RootNode, parent = None, children = [], indent = 0,
             direction = None, textContent = [], canInsertTab = False\<rparr>
   \<and> (\<exists>ed'. registerRichText blankParser (blankEditor NoSelection (Some 0)) Undefined
               = Inr ed'
          \<and> commandListeners ed' = richTextCommands
          \<and> updateTags ed' = [''history-merge'']
          \<and> map_option children (getNodeMap ed' RootKey) = Some [Key 2])"
proof -
  have h1: "getNodeMap (blankEditor NoSelection (Some 0)) RootKey =
     Some \<lparr>node_type = RootNode, parent = None, children = [], indent = 0,
           direction = None, textContent = [], canInsertTab = False\<rparr>"
    by (simp add: blankEditor_simps)
  show ?thesis
    using h1 registerRichText_null_skips_initialisation
      [of blankParser "blankEditor NoSelection (Some 0)"
        "\<lparr>node_type = RootNode, parent = None, children = [], indent = 0,
           direction = None, textContent = [], canInsertTab = False\<rparr>"]
    by (auto simp: blankEditor_simps)
qed

end
